theory Spec2Isabelle
  imports Main "HOL-Library.AList"
begin

section \<open>Strings as the code uses them\<close>

text \<open>
  JavaScript strings are modelled as \<open>string\<close> (lists of 8-bit characters), so the
  model covers ASCII calendar text. \<open>undefined\<close> is \<open>None\<close> of an option type, and
  \<open>NaN\<close> is \<open>None\<close> of \<open>int option\<close>.
\<close>

definition startsWith :: "string \<Rightarrow> string \<Rightarrow> bool" where
  "startsWith s pre = (take (length pre) s = pre)"

definition endsWith :: "string \<Rightarrow> string \<Rightarrow> bool" where
  "endsWith s suf = (length suf \<le> length s \<and> drop (length s - length suf) s = suf)"

text \<open>\<open>String.prototype.includes\<close> (the name \<open>includes\<close> is reserved in Isabelle).\<close>

fun strIncludes :: "string \<Rightarrow> string \<Rightarrow> bool" where
  "strIncludes [] sub = (sub = [])"
| "strIncludes (c # cs) sub = (startsWith (c # cs) sub \<or> strIncludes cs sub)"

text \<open>
  The three regular expressions of the code have one shape: a literal prefix, then a
  group \<open>([^X]+)\<close>, then possibly one literal character of the excluded class.
  \<open>matchAt\<close> tries the pattern at the head of the string; the group is greedy, so it
  is the longest run of allowed characters, and when a closing character is required the
  run must be followed by one (a shorter run would be followed by an allowed character).
  \<open>regexGroup\<close> is the leftmost match, as \<open>String.prototype.match\<close> finds it.
\<close>

definition matchAt :: "string \<Rightarrow> (char \<Rightarrow> bool) \<Rightarrow> bool \<Rightarrow> string \<Rightarrow> string option" where
  "matchAt pre excluded closing s =
     (if startsWith s pre then
        (let rest = drop (length pre) s;
             grp = takeWhile (\<lambda>c. \<not> excluded c) rest
         in if grp = [] then None
            else if closing \<and> drop (length grp) rest = [] then None
            else Some grp)
      else None)"

fun regexGroup :: "string \<Rightarrow> (char \<Rightarrow> bool) \<Rightarrow> bool \<Rightarrow> string \<Rightarrow> string option" where
  "regexGroup pre excluded closing [] = None"
| "regexGroup pre excluded closing (c # cs) =
     (case matchAt pre excluded closing (c # cs) of
        Some grp \<Rightarrow> Some grp
      | None \<Rightarrow> regexGroup pre excluded closing cs)"

text \<open>\<open>/BYDAY=([^;]+)/\<close>, first group.\<close>

definition bydayMatch :: "string \<Rightarrow> string option" where
  "bydayMatch rrule = regexGroup ''BYDAY='' (\<lambda>c. c = CHR '';'') False rrule"

text \<open>The white space that \<open>trim\<close> and \<open>parseInt\<close> skip (its ASCII part).\<close>

definition isWhite :: "char \<Rightarrow> bool" where
  "isWhite c = (c = CHR 0x09 \<or> c = CHR 0x0A \<or> c = CHR 0x0B \<or> c = CHR 0x0C \<or> c = CHR 0x0D
     \<or> c = CHR '' '')"

definition trim :: "string \<Rightarrow> string" where
  "trim s = rev (dropWhile isWhite (rev (dropWhile isWhite s)))"

text \<open>\<open>s.substring(a, b)\<close> for \<open>a \<le> b\<close>; positions past the end are clamped.\<close>

definition substring :: "string \<Rightarrow> nat \<Rightarrow> nat \<Rightarrow> string" where
  "substring s a b = take (b - a) (drop a s)"

text \<open>
  \<open>s.split(c)\<close> for a one-character separator. The result is never empty, so the
  first case of the inner \<open>case\<close> is never taken.
\<close>

fun splitChar :: "char \<Rightarrow> string \<Rightarrow> string list" where
  "splitChar c [] = [[]]"
| "splitChar c (x # xs) =
     (if x = c then [] # splitChar c xs
      else (case splitChar c xs of
              [] \<Rightarrow> [[x]]
            | piece # pieces \<Rightarrow> (x # piece) # pieces))"

text \<open>\<open>s.split(sep)\<close> for a separator of one or more characters.\<close>

function splitStr :: "string \<Rightarrow> string \<Rightarrow> string list" where
  "splitStr sep [] = [[]]"
| "splitStr sep (x # xs) =
     (if sep \<noteq> [] \<and> startsWith (x # xs) sep
      then [] # splitStr sep (drop (length sep) (x # xs))
      else (case splitStr sep xs of
              [] \<Rightarrow> [[x]]
            | piece # pieces \<Rightarrow> (x # piece) # pieces))"
  by pat_completeness auto
termination
  by (relation "measure (\<lambda>(sep, s). length s)") (auto simp: neq_Nil_conv)

text \<open>\<open>xs.join(sep)\<close>.\<close>

fun joinWith :: "string \<Rightarrow> string list \<Rightarrow> string" where
  "joinWith sep [] = []"
| "joinWith sep [x] = x"
| "joinWith sep (x # y # ys) = x @ sep @ joinWith sep (y # ys)"

text \<open>\<open>s.replace(sub, rep)\<close> with a string pattern: the first occurrence only.\<close>

fun replaceFirst :: "string \<Rightarrow> string \<Rightarrow> string \<Rightarrow> string" where
  "replaceFirst sub rep [] = (if sub = [] then rep else [])"
| "replaceFirst sub rep (c # cs) =
     (if startsWith (c # cs) sub then rep @ drop (length sub) (c # cs)
      else c # replaceFirst sub rep cs)"

text \<open>\<open>s.indexOf(':')\<close> for a string that contains the character.\<close>

definition indexOfChar :: "char \<Rightarrow> string \<Rightarrow> nat" where
  "indexOfChar c s = length (takeWhile (\<lambda>x. x \<noteq> c) s)"

text \<open>\<open>word.charAt(0).toUpperCase() + word.slice(1)\<close>, on ASCII letters.\<close>

definition toUpperChar :: "char \<Rightarrow> char" where
  "toUpperChar c =
     (if (97::nat) \<le> of_char c \<and> of_char c \<le> (122::nat)
      then char_of (of_char c - (32::nat)) else c)"

definition capitalize :: "string \<Rightarrow> string" where
  "capitalize word = (case word of [] \<Rightarrow> [] | c # cs \<Rightarrow> toUpperChar c # cs)"

text \<open>
  \<open>parseInt(s)\<close> without a radix: leading white space, a sign, the prefix \<open>0x\<close> or
  \<open>0X\<close> for base 16, then the longest run of digits; \<open>NaN\<close> (\<open>None\<close>) when the run
  is empty. The model computes in unbounded integers (JavaScript rounds beyond
  \<open>2^53\<close>).
\<close>

definition digitValue :: "char \<Rightarrow> nat option" where
  "digitValue c =
     (let n = (of_char c :: nat)
      in if 48 \<le> n \<and> n \<le> 57 then Some (n - 48)
         else if 97 \<le> n \<and> n \<le> 102 then Some (n - 87)
         else if 65 \<le> n \<and> n \<le> 70 then Some (n - 55)
         else None)"

definition isDigitIn :: "nat \<Rightarrow> char \<Rightarrow> bool" where
  "isDigitIn radix c = (case digitValue c of None \<Rightarrow> False | Some v \<Rightarrow> v < radix)"

definition digitsValue :: "nat \<Rightarrow> string \<Rightarrow> int" where
  "digitsValue radix ds =
     foldl (\<lambda>acc c. acc * int radix + int (case digitValue c of None \<Rightarrow> 0 | Some v \<Rightarrow> v)) 0 ds"

definition parseInt :: "string \<Rightarrow> int option" where
  "parseInt s =
     (let s1 = dropWhile isWhite s;
          sign = (if startsWith s1 ''-'' then - 1 else 1);
          s2 = (if startsWith s1 ''-'' \<or> startsWith s1 ''+'' then drop 1 s1 else s1);
          radix = (if startsWith s2 ''0x'' \<or> startsWith s2 ''0X'' then 16 else 10);
          s3 = (if radix = 16 then drop 2 s2 else s2);
          ds = takeWhile (isDigitIn radix) s3
      in if ds = [] then None else Some (sign * digitsValue radix ds))"

text \<open>A number in a template literal: decimal digits, or \<open>NaN\<close>.\<close>

function showDigits :: "int \<Rightarrow> string" where
  "showDigits i =
     (if i < 10 then [char_of (48 + i)]
      else showDigits (i div 10) @ [char_of (48 + i mod 10)])"
  by pat_completeness auto
termination
  by (relation "measure nat") auto

definition showInt :: "int \<Rightarrow> string" where
  "showInt i = (if i < 0 then CHR ''-'' # showDigits (- i) else showDigits i)"

definition showNat :: "nat \<Rightarrow> string" where
  "showNat n = showDigits (int n)"

definition showNumber :: "int option \<Rightarrow> string" where
  "showNumber v = (case v of None \<Rightarrow> ''NaN'' | Some i \<Rightarrow> showInt i)"

text \<open>\<open>s.padStart(2, '0')\<close>.\<close>

definition padStart2 :: "string \<Rightarrow> string" where
  "padStart2 s = replicate (2 - length s) (CHR ''0'') @ s"

text \<open>A string or \<open>undefined\<close> in a template literal.\<close>

definition showString :: "string option \<Rightarrow> string" where
  "showString v = (case v of None \<Rightarrow> ''undefined'' | Some s \<Rightarrow> s)"

text \<open>Truthiness of a string that may be \<open>undefined\<close>: defined and not empty.\<close>

definition truthy :: "string option \<Rightarrow> bool" where
  "truthy v = (case v of None \<Rightarrow> False | Some s \<Rightarrow> s \<noteq> [])"

section \<open>Luxon's DateTime\<close>

text \<open>
  A Luxon \<open>DateTime\<close> is an instant (\<open>ts\<close>, milliseconds since the epoch), a zone and
  the zone's offset in minutes at that instant, or it is invalid. Luxon and the zone
  database are not part of the repository. The model follows Luxon's arithmetic on
  wall-clock fields, and takes the zone database as the parameter \<open>tzdb\<close>: it gives a
  zone name its offset from UTC in minutes as a function of the instant, so a zone may
  change its clock (\<open>None\<close> for a name Luxon does not know). The clock, the server's
  zone, Luxon's ISO-8601 reader and the zone abbreviation service are parameters too.
\<close>

datatype DateTime = Invalid | DT (ts: int) (zoneName: string) (offset: int)

record luxon_env =
  tzdb :: "string \<Rightarrow> (int \<Rightarrow> int) option"
  nowTs :: int
  systemZone :: string
  fromISO :: "string \<Rightarrow> DateTime"
  offsetNameShort :: "string \<Rightarrow> int \<Rightarrow> string"

definition msPerDay :: int where
  "msPerDay = 86400000"

text \<open>
  A JavaScript \<open>Date\<close> reaches 100 000 000 days to either side of the epoch. Beyond
  that \<open>Date.UTC\<close> is \<open>NaN\<close>, and so are the fields of a \<open>Date\<close> and the offset of a
  zone, and the \<open>DateTime\<close> built from them is invalid.
\<close>

definition maxTs :: int where
  "maxTs = 8640000000000000"

definition inRange :: "int \<Rightarrow> bool" where
  "inRange t = (- maxTs \<le> t \<and> t \<le> maxTs)"

text \<open>Local wall-clock milliseconds, the local day number and the time within the day.\<close>

definition localTs :: "int \<Rightarrow> int \<Rightarrow> int" where
  "localTs t off = t + off * 60000"

definition localDay :: "int \<Rightarrow> int \<Rightarrow> int" where
  "localDay t off = localTs t off div msPerDay"

definition localTod :: "int \<Rightarrow> int \<Rightarrow> int" where
  "localTod t off = localTs t off mod msPerDay"

text \<open>\<open>zone.offset(ts)\<close>; the server's zone counts as UTC when the database lacks it.\<close>

definition zoneOffset :: "luxon_env \<Rightarrow> string \<Rightarrow> int \<Rightarrow> int" where
  "zoneOffset env z t = (case tzdb env z of None \<Rightarrow> 0 | Some f \<Rightarrow> f t)"

text \<open>
  The constructor: the value is invalid when its instant or its wall clock is out of
  range. \<open>atInstant\<close> is the value Luxon builds for an instant in a zone, with the
  zone's offset at that instant.
\<close>

definition mkDateTime :: "int \<Rightarrow> string \<Rightarrow> int \<Rightarrow> DateTime" where
  "mkDateTime t z off = (if inRange t \<and> inRange (localTs t off) then DT t z off else Invalid)"

definition atInstant :: "luxon_env \<Rightarrow> string \<Rightarrow> int \<Rightarrow> DateTime" where
  "atInstant env z t = mkDateTime t z (zoneOffset env z t)"

text \<open>\<open>DateTime.now()\<close>: the clock, in the server's zone.\<close>

definition dtNow :: "luxon_env \<Rightarrow> DateTime" where
  "dtNow env = DT (nowTs env) (systemZone env) (zoneOffset env (systemZone env) (nowTs env))"

text \<open>\<open>valueOf\<close>, which the comparison operators use: \<open>NaN\<close> when invalid.\<close>

fun valueOf :: "DateTime \<Rightarrow> int option" where
  "valueOf Invalid = None"
| "valueOf (DT t z off) = Some t"

text \<open>\<open>a < b\<close> and \<open>a > b\<close> on DateTimes: false as soon as one side is \<open>NaN\<close>.\<close>

fun dtLess :: "DateTime \<Rightarrow> DateTime \<Rightarrow> bool" where
  "dtLess (DT a _ _) (DT b _ _) = (a < b)"
| "dtLess _ _ = False"

definition dtGreater :: "DateTime \<Rightarrow> DateTime \<Rightarrow> bool" where
  "dtGreater a b = dtLess b a"

text \<open>Weekday as Luxon counts it: 1 is Monday, 7 is Sunday (day 0 was a Thursday).\<close>

fun weekday :: "DateTime \<Rightarrow> int option" where
  "weekday Invalid = None"
| "weekday (DT t z off) = Some ((localDay t off + 3) mod 7 + 1)"

fun hour :: "DateTime \<Rightarrow> int option" where
  "hour Invalid = None"
| "hour (DT t z off) = Some (localTod t off div 3600000)"

fun minute :: "DateTime \<Rightarrow> int option" where
  "minute Invalid = None"
| "minute (DT t z off) = Some (localTod t off div 60000 mod 60)"

fun second :: "DateTime \<Rightarrow> int option" where
  "second Invalid = None"
| "second (DT t z off) = Some (localTod t off div 1000 mod 60)"

fun millisecond :: "DateTime \<Rightarrow> int option" where
  "millisecond Invalid = None"
| "millisecond (DT t z off) = Some (localTod t off mod 1000)"

text \<open>\<open>setZone\<close>: the same instant in another zone; an unknown zone gives an invalid value.\<close>

fun setZone :: "luxon_env \<Rightarrow> DateTime \<Rightarrow> string \<Rightarrow> DateTime" where
  "setZone env Invalid z = Invalid"
| "setZone env (DT t z0 off0) z =
     (case tzdb env z of None \<Rightarrow> Invalid | Some f \<Rightarrow> mkDateTime t z (f t))"

text \<open>
  Luxon's \<open>fixOffset\<close>: the instant that shows the wall clock \<open>localTS\<close> in the zone,
  found from a first guess \<open>off\<close> of the offset. When the guess fails it tries the offset
  the zone has at the guessed instant; when that fails too, the wall clock does not
  exist (the zone skips it) and the instant is taken past the gap.
\<close>

definition fixOffset :: "luxon_env \<Rightarrow> string \<Rightarrow> int \<Rightarrow> int \<Rightarrow> int \<times> int" where
  "fixOffset env z localTS off =
     (let utcGuess = localTS - off * 60000;
          o2 = zoneOffset env z utcGuess
      in if off = o2 then (utcGuess, off)
         else (let utcGuess2 = utcGuess - (o2 - off) * 60000;
                   o3 = zoneOffset env z utcGuess2
               in if o2 = o3 then (utcGuess2, o2)
                  else (localTS - min o2 o3 * 60000, max o2 o3)))"

text \<open>
  What \<open>set\<close> and \<open>plus\<close> return for the wall clock they computed from the fields of
  a value with offset \<open>off\<close>: \<open>Date.UTC\<close> of the fields, then \<open>fixOffset\<close>, then the
  constructor.
\<close>

definition fromWall :: "luxon_env \<Rightarrow> string \<Rightarrow> int \<Rightarrow> int \<Rightarrow> DateTime" where
  "fromWall env z off localTS =
     (if inRange localTS then atInstant env z (fst (fixOffset env z localTS off)) else Invalid)"

text \<open>\<open>set({ hour, minute, second, millisecond })\<close> keeps the date.\<close>

fun setHMSms :: "luxon_env \<Rightarrow> DateTime \<Rightarrow> int \<Rightarrow> int \<Rightarrow> int \<Rightarrow> int \<Rightarrow> DateTime" where
  "setHMSms env Invalid h m s ms = Invalid"
| "setHMSms env (DT t z off) h m s ms =
     fromWall env z off (localDay t off * msPerDay + h * 3600000 + m * 60000 + s * 1000 + ms)"

text \<open>\<open>set({ hour, minute, second })\<close> keeps the date and the milliseconds.\<close>

fun setHMS :: "luxon_env \<Rightarrow> DateTime \<Rightarrow> int \<Rightarrow> int \<Rightarrow> int \<Rightarrow> DateTime" where
  "setHMS env Invalid h m s = Invalid"
| "setHMS env (DT t z off) h m s = setHMSms env (DT t z off) h m s (localTod t off mod 1000)"

text \<open>\<open>startOf('day')\<close> sets the four fields to 0.\<close>

definition startOfDay :: "luxon_env \<Rightarrow> DateTime \<Rightarrow> DateTime" where
  "startOfDay env d = setHMSms env d 0 0 0 0"

text \<open>
  \<open>plus({ days: n })\<close> and \<open>minus({ days: n })\<close> add to the day field: the same wall
  clock n days away, in the offset the zone has there.
\<close>

fun plusDays :: "luxon_env \<Rightarrow> DateTime \<Rightarrow> int \<Rightarrow> DateTime" where
  "plusDays env Invalid n = Invalid"
| "plusDays env (DT t z off) n = fromWall env z off (localTs t off + n * msPerDay)"

definition minusDays :: "luxon_env \<Rightarrow> DateTime \<Rightarrow> int \<Rightarrow> DateTime" where
  "minusDays env d n = plusDays env d (- n)"

text \<open>
  \<open>DateTime.max(a, b)\<close> keeps the first argument while \<open>Math.max\<close> of the two values
  is identical to the first value; a \<open>NaN\<close> on either side makes it take the second.
\<close>

fun dtMax :: "DateTime \<Rightarrow> DateTime \<Rightarrow> DateTime" where
  "dtMax (DT a za oa) (DT b zb ob) = (if max a b = a then DT a za oa else DT b zb ob)"
| "dtMax a b = b"

text \<open>\<open>a.diff(b)\<close> in milliseconds; an invalid side gives an invalid Duration (\<open>None\<close>).\<close>

fun diff :: "DateTime \<Rightarrow> DateTime \<Rightarrow> int option" where
  "diff (DT a _ _) (DT b _ _) = Some (a - b)"
| "diff _ _ = None"

text \<open>
  \<open>plus(duration)\<close> for a valid Duration of milliseconds: the instant of the wall
  clock as \<open>fixOffset\<close> finds it, moved by the milliseconds.
\<close>

fun plusMillis :: "luxon_env \<Rightarrow> DateTime \<Rightarrow> int \<Rightarrow> DateTime" where
  "plusMillis env Invalid n = Invalid"
| "plusMillis env (DT t z off) n =
     atInstant env z (fst (fixOffset env z (localTs t off) off) + n)"

text \<open>
  \<open>DateTime.fromObject\<close>. An unknown zone gives an invalid value; a \<open>NaN\<close> field
  throws; fields out of range give an invalid value (hour 24 is accepted with minute
  and second 0). The calendar is the proleptic Gregorian one, and the first guess of
  the offset is the one the zone has now.
\<close>

datatype error = TypeError | InvalidArgumentError

definition isLeapYear :: "int \<Rightarrow> bool" where
  "isLeapYear y = (y mod 4 = 0 \<and> (y mod 100 \<noteq> 0 \<or> y mod 400 = 0))"

definition daysInMonth :: "int \<Rightarrow> int \<Rightarrow> int" where
  "daysInMonth y m =
     (if m = 2 then (if isLeapYear y then 29 else 28)
      else if m = 4 \<or> m = 6 \<or> m = 9 \<or> m = 11 then 30 else 31)"

text \<open>Days from 1970-01-01 to the given civil date.\<close>

definition daysFromCivil :: "int \<Rightarrow> int \<Rightarrow> int \<Rightarrow> int" where
  "daysFromCivil y m d =
     (let y' = (if m \<le> 2 then y - 1 else y);
          era = y' div 400;
          yoe = y' - era * 400;
          doy = (153 * (if m > 2 then m - 3 else m + 9) + 2) div 5 + d - 1;
          doe = yoe * 365 + yoe div 4 - yoe div 100 + doy
      in era * 146097 + doe - 719468)"

definition fromObject :: "luxon_env \<Rightarrow> int option \<Rightarrow> int option \<Rightarrow> int option
    \<Rightarrow> int option \<Rightarrow> int option \<Rightarrow> int option \<Rightarrow> string \<Rightarrow> error + DateTime" where
  "fromObject env year month day hour' minute' second' zone =
     (case tzdb env zone of
        None \<Rightarrow> Inr Invalid
      | Some f \<Rightarrow>
          (case (year, month, day, hour', minute', second') of
             (Some y, Some m, Some d, Some h, Some mi, Some s) \<Rightarrow>
               (if 1 \<le> m \<and> m \<le> 12 \<and> 1 \<le> d \<and> d \<le> daysInMonth y m
                   \<and> ((0 \<le> h \<and> h \<le> 23) \<or> (h = 24 \<and> mi = 0 \<and> s = 0))
                   \<and> 0 \<le> mi \<and> mi \<le> 59 \<and> 0 \<le> s \<and> s \<le> 59
                then
                  (let localTS = daysFromCivil y m d * msPerDay + h * 3600000 + mi * 60000
                                 + s * 1000
                   in if inRange localTS
                      then (case fixOffset env zone localTS (f (nowTs env)) of
                              (t, off) \<Rightarrow> Inr (mkDateTime t zone off))
                      else Inr Invalid)
                else Inr Invalid)
           | _ \<Rightarrow> Inl InvalidArgumentError))"

text \<open>
  A well-formed value is within range and carries the offset its zone has at its
  instant: the values that \<open>set\<close>, \<open>plus\<close> and \<open>setZone\<close> return are of this kind.
\<close>

definition wellFormed :: "luxon_env \<Rightarrow> DateTime \<Rightarrow> bool" where
  "wellFormed env d =
     (case d of
        Invalid \<Rightarrow> True
      | DT t z off \<Rightarrow> off = zoneOffset env z t \<and> inRange t \<and> inRange (localTs t off))"

section \<open>The events the resolver stores\<close>

text \<open>
  \<open>start\<close> and \<open>end\<close> of a stored event pair an ISO string with a zone name. The ISO
  string is written by \<open>toISO\<close> (to the millisecond, with the offset) and read back by
  \<open>DateTime.fromISO\<close>: the model stores the \<open>DateTime\<close> itself, and \<open>Invalid\<close> stands
  for the \<open>null\<close> that \<open>toISO\<close> gives for an invalid value. Field names carry the
  prefix \<open>ev_\<close>; \<open>ev_deadlineOffset\<close> is optional because the projector tests it
  against \<open>undefined\<close>.
\<close>

record zoned =
  dateTime :: DateTime
  timeZone :: string

record parsedEvent =
  ev_summary :: string
  ev_description :: string
  ev_start :: zoned
  ev_end :: zoned
  ev_recurrence :: "string list option"
  ev_source :: string
  ev_originalUid :: "string option"
  ev_sessionId :: string
  ev_isRecurring :: bool
  ev_deadlineOffset :: "int option"
  ev_startDate :: DateTime
  ev_endDate :: DateTime
  ev_uid :: "string option"

section \<open>The parser: extractTimezone, parseIcsDate and the properties of a block\<close>

text \<open>
  \<open>currentEvent\<close> starts as the empty object; a property that was never assigned is
  \<open>undefined\<close> (\<open>None\<close>).
\<close>

record rawEvent =
  startDate :: "DateTime option"
  startTimezone :: "string option"
  endDate :: "DateTime option"
  endTimezone :: "string option"
  summary :: "string option"
  description :: "string option"
  location :: "string option"
  uid :: "string option"
  status :: "string option"
  rrule :: "string option"
  categories :: "string option"
  created :: "DateTime option"
  lastModified :: "DateTime option"
  deadlineOffset :: "int option"
  otherProperties :: "(string \<times> string) list option"

definition emptyEvent :: rawEvent where
  "emptyEvent = \<lparr> startDate = None, startTimezone = None, endDate = None, endTimezone = None,
     summary = None, description = None, location = None, uid = None, status = None,
     rrule = None, categories = None, created = None, lastModified = None,
     deadlineOffset = None, otherProperties = None \<rparr>"

text \<open>\<open>Object.keys(currentEvent).length > 0\<close>.\<close>

definition hasKeys :: "rawEvent \<Rightarrow> bool" where
  "hasKeys e = (startDate e \<noteq> None \<or> startTimezone e \<noteq> None \<or> endDate e \<noteq> None
     \<or> endTimezone e \<noteq> None \<or> summary e \<noteq> None \<or> description e \<noteq> None
     \<or> location e \<noteq> None \<or> uid e \<noteq> None \<or> status e \<noteq> None \<or> rrule e \<noteq> None
     \<or> categories e \<noteq> None \<or> created e \<noteq> None \<or> lastModified e \<noteq> None
     \<or> deadlineOffset e \<noteq> None \<or> otherProperties e \<noteq> None)"

definition defaultZone :: string where
  "defaultZone = ''America/New_York''"

text \<open>\<open>extractTimezone\<close>; the pattern is \<open>/TZID=([^:]+):/\<close>.\<close>

definition extractTimezone :: "string \<Rightarrow> string" where
  "extractTimezone dateValue =
     (if strIncludes dateValue ''TZID='' then
        (case regexGroup ''TZID='' (\<lambda>c. c = CHR '':'') True dateValue of
           Some tz \<Rightarrow> tz
         | None \<Rightarrow> defaultZone)
      else if endsWith dateValue ''Z'' then ''UTC'' else defaultZone)"

text \<open>
  \<open>parseIcsDate(icsDate, timezone)\<close>; \<open>timezone\<close> is \<open>None\<close> for \<open>null\<close>. The
  \<open>catch\<close> is reached only when \<open>fromObject\<close> throws. \<open>parseIcsDateZone\<close> is the
  zone the function hands to \<open>fromObject\<close> in the date-time form (\<open>finalZone\<close>).
\<close>

definition parseIcsDateZone :: "string \<Rightarrow> string option \<Rightarrow> string" where
  "parseIcsDateZone icsDate tz =
     (let zone = (if truthy tz then the tz
                  else if endsWith icsDate ''Z'' then ''UTC'' else defaultZone)
      in if endsWith icsDate ''Z'' then ''UTC'' else zone)"

definition parseIcsDate :: "luxon_env \<Rightarrow> string \<Rightarrow> string option \<Rightarrow> DateTime" where
  "parseIcsDate env icsDate tz =
     (let zone = (if truthy tz then the tz
                  else if endsWith icsDate ''Z'' then ''UTC'' else defaultZone);
          fallback = setZone env (dtNow env) (if truthy tz then the tz else defaultZone)
      in if length icsDate = 8 then
           (case fromObject env (parseInt (substring icsDate 0 4))
                   (parseInt (substring icsDate 4 6)) (parseInt (substring icsDate 6 8))
                   (Some 0) (Some 0) (Some 0) zone of
              Inr d \<Rightarrow> d
            | Inl _ \<Rightarrow> fallback)
         else if strIncludes icsDate ''T'' then
           (let dateTimeParts = splitChar (CHR ''T'') (replaceFirst ''Z'' [] icsDate);
                datePart = hd dateTimeParts;
                timePart = (if hd (tl dateTimeParts) = [] then ''000000''
                            else hd (tl dateTimeParts))
            in case fromObject env (parseInt (substring datePart 0 4))
                    (parseInt (substring datePart 4 6)) (parseInt (substring datePart 6 8))
                    (parseInt (substring timePart 0 2)) (parseInt (substring timePart 2 4))
                    (parseInt (substring timePart 4 6)) (parseIcsDateZone icsDate tz) of
                 Inr d \<Rightarrow> d
               | Inl _ \<Rightarrow> fallback)
         else (if truthy tz then setZone env (fromISO env icsDate) (the tz)
               else fromISO env icsDate))"

text \<open>
  The third branch of the line loop (a line with a colon inside a block): the property
  name is the text before the first colon, the value the text after it.
\<close>

definition parseProperty :: "luxon_env \<Rightarrow> rawEvent \<Rightarrow> string \<Rightarrow> rawEvent" where
  "parseProperty env currentEvent line =
     (let colonIndex = indexOfChar (CHR '':'') line;
          property = substring line 0 colonIndex;
          value = drop (colonIndex + 1) line
      in if startsWith property ''DTSTART'' then
           currentEvent\<lparr> startDate := Some (parseIcsDate env value (Some (extractTimezone line))),
                          startTimezone := Some (extractTimezone line) \<rparr>
         else if startsWith property ''DTEND'' then
           currentEvent\<lparr> endDate := Some (parseIcsDate env value (Some (extractTimezone line))),
                          endTimezone := Some (extractTimezone line) \<rparr>
         else if property = ''SUMMARY'' then currentEvent\<lparr> summary := Some value \<rparr>
         else if property = ''DESCRIPTION'' then currentEvent\<lparr> description := Some value \<rparr>
         else if property = ''LOCATION'' then currentEvent\<lparr> location := Some value \<rparr>
         else if property = ''UID'' then currentEvent\<lparr> uid := Some value \<rparr>
         else if property = ''STATUS'' then currentEvent\<lparr> status := Some value \<rparr>
         else if property = ''RRULE'' then currentEvent\<lparr> rrule := Some value \<rparr>
         else if property = ''CATEGORIES'' then currentEvent\<lparr> categories := Some value \<rparr>
         else if property = ''CREATED'' then
           currentEvent\<lparr> created := Some (parseIcsDate env value (Some ''UTC'')) \<rparr>
         else if property = ''LAST-MODIFIED'' then
           currentEvent\<lparr> lastModified := Some (parseIcsDate env value (Some ''UTC'')) \<rparr>
         else if property = ''X-PUB-DEADLINE-OFFSET'' then
           currentEvent\<lparr> deadlineOffset :=
             Some (case parseInt value of None \<Rightarrow> 0 | Some n \<Rightarrow> n) \<rparr>
         else
           currentEvent\<lparr> otherProperties :=
             Some (AList.update property value
                     (case otherProperties currentEvent of None \<Rightarrow> [] | Some ps \<Rightarrow> ps)) \<rparr>)"

section \<open>The resolver: processEvent\<close>

text \<open>Lines 194 to 201: the display source.\<close>

definition eventSourceOf :: "rawEvent \<Rightarrow> string \<Rightarrow> string" where
  "eventSourceOf currentEvent defaultSourceName =
     (if truthy (categories currentEvent)
      then joinWith '' '' (map capitalize (splitChar (CHR ''-'') (the (categories currentEvent))))
      else defaultSourceName)"

definition eventTimezoneOf :: "rawEvent \<Rightarrow> string" where
  "eventTimezoneOf currentEvent =
     (if truthy (startTimezone currentEvent) then the (startTimezone currentEvent)
      else defaultZone)"

text \<open>
  Lines 212 to 223: the next occurrence of the start's weekday after \<open>todayInEventTz\<close>.
  The branch is entered only after \<open>eventStartTime < todayInEventTz\<close>, which is false
  for an invalid value, so the last case is never taken.
\<close>

definition nextOccurrence :: "luxon_env \<Rightarrow> DateTime \<Rightarrow> DateTime \<Rightarrow> DateTime" where
  "nextOccurrence env eventStartTime todayInEventTz =
     (case (weekday eventStartTime, weekday todayInEventTz,
            hour eventStartTime, minute eventStartTime, second eventStartTime) of
        (Some eventDayOfWeek, Some todayDayOfWeek, Some h, Some m, Some s) \<Rightarrow>
          (let daysToAdd = (eventDayOfWeek - todayDayOfWeek + 7) mod 7
           in setHMS env (plusDays env todayInEventTz (if daysToAdd = 0 then 7 else daysToAdd)) h m s)
      | _ \<Rightarrow> Invalid)"

text \<open>
  Lines 203 to 230: the start and end the stored events carry. \<open>plus\<close> throws on the
  invalid Duration that \<open>diff\<close> returns when the end is invalid.
\<close>

definition adjustTimes :: "luxon_env \<Rightarrow> rawEvent \<Rightarrow> bool \<Rightarrow> DateTime
    \<Rightarrow> error + (DateTime option \<times> DateTime option)" where
  "adjustTimes env currentEvent isRecurringEvent today =
     (let eventStartTime = startDate currentEvent;
          eventEndTime = (case endDate currentEvent of
                            Some e \<Rightarrow> Some e | None \<Rightarrow> startDate currentEvent);
          todayInEventTz = setZone env today (eventTimezoneOf currentEvent)
      in case (eventStartTime, eventEndTime) of
           (Some st, Some en) \<Rightarrow>
             (if isRecurringEvent \<and> dtLess st todayInEventTz then
                (case diff en st of
                   None \<Rightarrow> Inl InvalidArgumentError
                 | Some duration \<Rightarrow>
                     Inr (Some (nextOccurrence env st todayInEventTz),
                          Some (plusMillis env (nextOccurrence env st todayInEventTz) duration)))
              else Inr (eventStartTime, eventEndTime))
         | _ \<Rightarrow> Inr (eventStartTime, eventEndTime))"

definition timeKeyOf :: "DateTime \<Rightarrow> string" where
  "timeKeyOf eventStartTime =
     showNumber (hour eventStartTime) @ '':'' @ padStart2 (showNumber (minute eventStartTime))"

definition baseUidOf :: "string option \<Rightarrow> string" where
  "baseUidOf u = (if truthy u then hd (splitStr ''--'' (the u)) else [])"

definition dayNames :: "string list" where
  "dayNames = [''SU'', ''MO'', ''TU'', ''WE'', ''TH'', ''FR'', ''SA'']"

text \<open>\<open>dayNames.indexOf(day)\<close>; \<open>None\<close> is the result -1.\<close>

definition dayIndexOf :: "string \<Rightarrow> nat option" where
  "dayIndexOf day =
     (if day \<in> set dayNames then Some (length (takeWhile (\<lambda>d. d \<noteq> day) dayNames)) else None)"

text \<open>\<open>dayNames[weekday === 7 ? 0 : weekday]\<close>; \<open>undefined\<close> for \<open>NaN\<close>.\<close>

definition dayNameOfWeekday :: "int option \<Rightarrow> string option" where
  "dayNameOfWeekday w =
     (case w of
        None \<Rightarrow> None
      | Some i \<Rightarrow> (if i = 7 then Some (dayNames ! 0)
                   else if 0 \<le> i \<and> i < 7 then Some (dayNames ! nat i) else None))"

text \<open>
  Lines 238 to 250: the days the rule names (\<open>listedDays\<close>, the value of
  \<open>daysInRule\<close> before the default), or else the day of the start.
\<close>

definition listedDays :: "string option \<Rightarrow> string option list" where
  "listedDays rawRrule =
     (if truthy rawRrule \<and> strIncludes (the rawRrule) ''BYDAY='' then
        (case bydayMatch (the rawRrule) of
           Some g \<Rightarrow> map Some (splitChar (CHR '','') g)
         | None \<Rightarrow> [])
      else [])"

definition daysInRuleOf :: "string option \<Rightarrow> DateTime \<Rightarrow> string option list" where
  "daysInRuleOf rawRrule eventStartTime =
     (if listedDays rawRrule = [] then [dayNameOfWeekday (weekday eventStartTime)]
      else listedDays rawRrule)"

definition dayPatternKey :: "string \<Rightarrow> nat \<Rightarrow> string \<Rightarrow> string" where
  "dayPatternKey baseUid dayIndex timeKey = baseUid @ ''_'' @ showNat dayIndex @ ''_'' @ timeKey"

definition oneTimeKey :: "string option \<Rightarrow> DateTime \<Rightarrow> string" where
  "oneTimeKey u eventStartTime = showString u @ ''_'' @ showNumber (valueOf eventStartTime)"

text \<open>The object literal \<open>parsedEvent\<close> of both branches.\<close>

definition makeParsedEvent :: "rawEvent \<Rightarrow> string \<Rightarrow> string \<Rightarrow> DateTime \<Rightarrow> DateTime
    \<Rightarrow> string list option \<Rightarrow> bool \<Rightarrow> parsedEvent" where
  "makeParsedEvent currentEvent eventSource sessionId eventStartTime eventEndTime rec isRec =
     \<lparr> ev_summary = (if truthy (summary currentEvent) then the (summary currentEvent)
                      else ''Untitled Event''),
       ev_description =
         (if truthy (description currentEvent) then the (description currentEvent) else [])
         @ [CHR 0x0A, CHR 0x0A] @ ''Source: '' @ eventSource
         @ [CHR 0x0A] @ ''originalUuid: '' @ showString (uid currentEvent)
         @ [CHR 0x0A] @ ''sessionId: '' @ sessionId,
       ev_start = \<lparr> dateTime = eventStartTime, timeZone = eventTimezoneOf currentEvent \<rparr>,
       ev_end = \<lparr> dateTime = eventEndTime,
                  timeZone = (if truthy (endTimezone currentEvent)
                              then the (endTimezone currentEvent)
                              else eventTimezoneOf currentEvent) \<rparr>,
       ev_recurrence = rec,
       ev_source = eventSource,
       ev_originalUid = uid currentEvent,
       ev_sessionId = sessionId,
       ev_isRecurring = isRec,
       ev_deadlineOffset =
         Some (case deadlineOffset currentEvent of Some k \<Rightarrow> k | None \<Rightarrow> 2),
       ev_startDate = eventStartTime,
       ev_endDate = eventEndTime,
       ev_uid = uid currentEvent \<rparr>"

definition singleDayRrule :: "string \<Rightarrow> string" where
  "singleDayRrule day = ''RRULE:FREQ=WEEKLY;BYDAY='' @ day"

text \<open>
  \<open>eventsByDayPattern\<close> is a JavaScript Map: the model is an association list in
  insertion order, and since the code sets a key only when \<open>has\<close> is false, \<open>set\<close> is
  an append. The body of \<open>for (const day of daysInRule)\<close>:
\<close>

definition addDayEvent :: "rawEvent \<Rightarrow> string \<Rightarrow> string \<Rightarrow> DateTime \<Rightarrow> DateTime
    \<Rightarrow> (string \<times> parsedEvent) list \<Rightarrow> string option \<Rightarrow> (string \<times> parsedEvent) list" where
  "addDayEvent currentEvent eventSource sessionId eventStartTime eventEndTime
       eventsByDayPattern day =
     (case day of
        None \<Rightarrow> eventsByDayPattern
      | Some d \<Rightarrow>
          (case dayIndexOf d of
             None \<Rightarrow> eventsByDayPattern
           | Some dayIndex \<Rightarrow>
               (if map_of eventsByDayPattern
                     (dayPatternKey (baseUidOf (uid currentEvent)) dayIndex
                        (timeKeyOf eventStartTime)) = None
                then eventsByDayPattern
                     @ [(dayPatternKey (baseUidOf (uid currentEvent)) dayIndex
                           (timeKeyOf eventStartTime),
                         makeParsedEvent currentEvent eventSource sessionId eventStartTime
                           eventEndTime (Some [singleDayRrule d]) True)]
                else eventsByDayPattern)))"

text \<open>
  \<open>processEvent\<close>. Reading \<open>eventStartTime.hour\<close> when the block had no start
  property throws a TypeError, before anything is stored.
\<close>

definition processEvent :: "luxon_env \<Rightarrow> rawEvent \<Rightarrow> string option \<Rightarrow> bool \<Rightarrow> DateTime
    \<Rightarrow> (string \<times> parsedEvent) list \<Rightarrow> string \<Rightarrow> string
    \<Rightarrow> error + (string \<times> parsedEvent) list" where
  "processEvent env currentEvent rawRrule isRecurringEvent today eventsByDayPattern
       defaultSourceName sessionId =
     (case adjustTimes env currentEvent isRecurringEvent today of
        Inl e \<Rightarrow> Inl e
      | Inr (eventStartTime, eventEndTime) \<Rightarrow>
          (case eventStartTime of
             None \<Rightarrow> Inl TypeError
           | Some st \<Rightarrow>
               (let en = (case eventEndTime of Some e \<Rightarrow> e | None \<Rightarrow> st);
                    eventSource = eventSourceOf currentEvent defaultSourceName
                in if isRecurringEvent then
                     Inr (foldl (addDayEvent currentEvent eventSource sessionId st en)
                            eventsByDayPattern (daysInRuleOf rawRrule st))
                   else if map_of eventsByDayPattern (oneTimeKey (uid currentEvent) st) = None
                   then Inr (eventsByDayPattern
                             @ [(oneTimeKey (uid currentEvent) st,
                                 makeParsedEvent currentEvent eventSource sessionId st en
                                   None False)])
                   else Inr eventsByDayPattern)))"

section \<open>The parser: parseIcsContent\<close>

text \<open>
  The first pass over the raw text: every chunk after a \<open>BEGIN:VEVENT\<close> that holds
  both \<open>UID:\<close> and \<open>RRULE:\<close> enters its rule under the part of its UID before
  \<open>--\<close>. The patterns are \<open>/UID:([^\r\n]+)/\<close> and \<open>/RRULE:([^\r\n]+)/\<close>.
\<close>

definition isLineBreak :: "char \<Rightarrow> bool" where
  "isLineBreak c = (c = CHR 0x0D \<or> c = CHR 0x0A)"

definition addRrule :: "string \<Rightarrow> (string \<times> string) list \<Rightarrow> (string \<times> string) list" where
  "addRrule block rruleMap =
     (if strIncludes block ''UID:'' \<and> strIncludes block ''RRULE:'' then
        (case (regexGroup ''UID:'' isLineBreak False block,
               regexGroup ''RRULE:'' isLineBreak False block) of
           (Some uidMatch, Some rruleMatch) \<Rightarrow>
             AList.update (hd (splitStr ''--'' (trim uidMatch))) (trim rruleMatch) rruleMap
         | _ \<Rightarrow> rruleMap)
      else rruleMap)"

definition rruleMapOf :: "string \<Rightarrow> (string \<times> string) list" where
  "rruleMapOf icsContent = fold addRrule (splitStr ''BEGIN:VEVENT'' icsContent) []"

text \<open>The display name derived from the last segment of the source URL.\<close>

definition sourceNameOf :: "string \<Rightarrow> string" where
  "sourceNameOf sourceUrl =
     joinWith '' ''
       (map capitalize
          (splitChar (CHR '' '')
             (map (\<lambda>c. if c = CHR ''-'' then CHR '' '' else c)
                (replaceFirst ''.ics'' [] (last (splitChar (CHR ''/'') sourceUrl))))))"

text \<open>\<open>rruleMap.get(currentEvent.uid) || rruleMap.get(baseUid)\<close>.\<close>

definition rawRruleOf :: "(string \<times> string) list \<Rightarrow> rawEvent \<Rightarrow> string option" where
  "rawRruleOf rruleMap e =
     (let exact = (case uid e of None \<Rightarrow> None | Some u \<Rightarrow> map_of rruleMap u)
      in if truthy exact then exact else map_of rruleMap (baseUidOf (uid e)))"

text \<open>The variables of the line loop, with the three counters it logs at the end.\<close>

record parseState =
  st_currentEvent :: "rawEvent option"
  st_inEvent :: bool
  st_totalProcessed :: nat
  st_futureEvents :: nat
  st_pastEvents :: nat
  st_eventsByDayPattern :: "(string \<times> parsedEvent) list"

definition initialState :: parseState where
  "initialState = \<lparr> st_currentEvent = None, st_inEvent = False, st_totalProcessed = 0,
     st_futureEvents = 0, st_pastEvents = 0, st_eventsByDayPattern = [] \<rparr>"

text \<open>The branch \<open>line === 'END:VEVENT' && inEvent\<close>.\<close>

definition endEvent :: "luxon_env \<Rightarrow> (string \<times> string) list \<Rightarrow> DateTime \<Rightarrow> string \<Rightarrow> string
    \<Rightarrow> parseState \<Rightarrow> error + parseState" where
  "endEvent env rruleMap today sourceName sessionId st =
     (case st_currentEvent st of
        None \<Rightarrow> Inr (st\<lparr> st_currentEvent := None, st_inEvent := False \<rparr>)
      | Some e \<Rightarrow>
          (if hasKeys e then
             (let rawRrule = rawRruleOf rruleMap e;
                  isRecurringEvent = (truthy rawRrule \<or> truthy (rrule e))
              in if \<not> isRecurringEvent \<and> startDate e \<noteq> None
                    \<and> dtLess (the (startDate e)) (setZone env today (eventTimezoneOf e))
                 then Inr (st\<lparr> st_totalProcessed := st_totalProcessed st + 1,
                               st_pastEvents := st_pastEvents st + 1,
                               st_currentEvent := None, st_inEvent := False \<rparr>)
                 else (case processEvent env e rawRrule isRecurringEvent today
                              (st_eventsByDayPattern st) sourceName sessionId of
                         Inl err \<Rightarrow> Inl err
                       | Inr m \<Rightarrow>
                           Inr (st\<lparr> st_totalProcessed := st_totalProcessed st + 1,
                                    st_futureEvents := st_futureEvents st + 1,
                                    st_eventsByDayPattern := m,
                                    st_currentEvent := None, st_inEvent := False \<rparr>)))
           else Inr (st\<lparr> st_currentEvent := None, st_inEvent := False \<rparr>)))"

text \<open>One pass through the body of the line loop.\<close>

definition parseLine :: "luxon_env \<Rightarrow> (string \<times> string) list \<Rightarrow> DateTime \<Rightarrow> string \<Rightarrow> string
    \<Rightarrow> parseState \<Rightarrow> string \<Rightarrow> error + parseState" where
  "parseLine env rruleMap today sourceName sessionId st line =
     (if line = ''BEGIN:VEVENT'' then
        Inr (st\<lparr> st_inEvent := True, st_currentEvent := Some emptyEvent \<rparr>)
      else if line = ''END:VEVENT'' \<and> st_inEvent st then
        endEvent env rruleMap today sourceName sessionId st
      else if st_inEvent st \<and> strIncludes line '':'' then
        (case st_currentEvent st of
           None \<Rightarrow> Inl TypeError
         | Some e \<Rightarrow> Inr (st\<lparr> st_currentEvent := Some (parseProperty env e line) \<rparr>))
      else Inr st)"

fun parseLines :: "luxon_env \<Rightarrow> (string \<times> string) list \<Rightarrow> DateTime \<Rightarrow> string \<Rightarrow> string
    \<Rightarrow> parseState \<Rightarrow> string list \<Rightarrow> error + parseState" where
  "parseLines env rruleMap today sourceName sessionId st [] = Inr st"
| "parseLines env rruleMap today sourceName sessionId st (line # rest) =
     (case parseLine env rruleMap today sourceName sessionId st line of
        Inl err \<Rightarrow> Inl err
      | Inr st' \<Rightarrow> parseLines env rruleMap today sourceName sessionId st' rest)"

text \<open>
  \<open>parseIcsContent(icsContent, sourceUrl)\<close>. The session id is made from the clock
  alone and is a parameter. \<open>Inl\<close> is an exception that leaves the function.
\<close>

definition parseIcsContent :: "luxon_env \<Rightarrow> string \<Rightarrow> string \<Rightarrow> string
    \<Rightarrow> error + parsedEvent list" where
  "parseIcsContent env sessionId icsContent sourceUrl =
     (case parseLines env (rruleMapOf icsContent) (startOfDay env (dtNow env))
             (sourceNameOf sourceUrl) sessionId initialState
             (map trim (splitChar (CHR 0x0A) icsContent)) of
        Inl err \<Rightarrow> Inl err
      | Inr st \<Rightarrow> Inr (map snd (st_eventsByDayPattern st)))"

section \<open>The projector: generateNext5FromEvents\<close>

record occurrence =
  runDate :: DateTime
  submissionDate :: DateTime
  timezone :: string
  timezoneAbbr :: string
  occ_deadlineOffset :: int

text \<open>
  The \<open>forEach\<close> over the events: an event with a non-empty first recurrence string
  that matches \<open>/BYDAY=([^;]+)/\<close> adds its day to the set \<open>recurringDays\<close> and sets
  the day's entry of the map \<open>dayToDeadlineOffset\<close> (a later event of the same day
  overwrites it).
\<close>

definition collectDay :: "parsedEvent \<Rightarrow> string list \<times> (string \<times> int) list
    \<Rightarrow> string list \<times> (string \<times> int) list" where
  "collectDay event acc =
     (case ev_recurrence event of
        Some (rule # _) \<Rightarrow>
          (if rule = [] then acc
           else (case bydayMatch rule of
                   Some dayAbbr \<Rightarrow>
                     (List.insert dayAbbr (fst acc),
                      AList.update dayAbbr
                        (case ev_deadlineOffset event of Some k \<Rightarrow> k | None \<Rightarrow> 2) (snd acc))
                 | None \<Rightarrow> acc))
      | _ \<Rightarrow> acc)"

definition collectDays :: "parsedEvent list \<Rightarrow> string list \<times> (string \<times> int) list" where
  "collectDays events = fold collectDay events ([], [])"

text \<open>\<open>Object.keys(dayMap).find(key => dayMap[key] === weekday)\<close>.\<close>

definition dayAbbrOf :: "int option \<Rightarrow> string option" where
  "dayAbbrOf w =
     (if w = Some 1 then Some ''MO'' else if w = Some 2 then Some ''TU''
      else if w = Some 3 then Some ''WE'' else if w = Some 4 then Some ''TH''
      else if w = Some 5 then Some ''FR'' else if w = Some 6 then Some ''SA''
      else if w = Some 7 then Some ''SU'' else None)"

definition getTimezoneAbbreviation :: "luxon_env \<Rightarrow> string \<Rightarrow> DateTime \<Rightarrow> string" where
  "getTimezoneAbbreviation env tz date =
     (case date of Invalid \<Rightarrow> [] | DT t _ _ \<Rightarrow> offsetNameShort env tz t)"

text \<open>
  One pass through the body of \<open>while (count < 5)\<close>, up to the step of the cursor:
  it returns the new \<open>count\<close> and \<open>dates\<close>.
\<close>

definition visitDay :: "luxon_env \<Rightarrow> DateTime \<Rightarrow> string \<Rightarrow> string list \<Rightarrow> (string \<times> int) list
    \<Rightarrow> DateTime \<Rightarrow> nat \<Rightarrow> occurrence list \<Rightarrow> nat \<times> occurrence list" where
  "visitDay env now tz recurringDays dayToDeadlineOffset currentDate count dates =
     (case dayAbbrOf (weekday currentDate) of
        None \<Rightarrow> (count, dates)
      | Some dayAbbr \<Rightarrow>
          (if dayAbbr \<in> set recurringDays then
             (let runDate = setHMSms env currentDate 12 0 0 0;
                  offsetValue =
                    (case map_of dayToDeadlineOffset dayAbbr of Some v \<Rightarrow> v | None \<Rightarrow> 2);
                  submissionDate = minusDays env runDate offsetValue
              in if dtGreater submissionDate now then
                   (count + 1,
                    dates @ [\<lparr> runDate = runDate, submissionDate = submissionDate,
                               timezone = tz,
                               timezoneAbbr = getTimezoneAbbreviation env tz runDate,
                               occ_deadlineOffset = offsetValue \<rparr>])
                 else (count, dates))
           else (count, dates)))"

text \<open>
  The loop has no other exit than \<open>count\<close> reaching 5, so it is a partial function:
  \<open>None\<close> is the run that never returns.
\<close>

partial_function (option) walkDays :: "luxon_env \<Rightarrow> DateTime \<Rightarrow> string \<Rightarrow> string list
    \<Rightarrow> (string \<times> int) list \<Rightarrow> DateTime \<Rightarrow> nat \<Rightarrow> occurrence list \<Rightarrow> occurrence list option" where
  "walkDays env now tz recurringDays dayToDeadlineOffset currentDate count dates =
     (if count < 5 then
        walkDays env now tz recurringDays dayToDeadlineOffset (plusDays env currentDate 1)
          (fst (visitDay env now tz recurringDays dayToDeadlineOffset currentDate count dates))
          (snd (visitDay env now tz recurringDays dayToDeadlineOffset currentDate count dates))
      else Some dates)"

declare walkDays.simps [code]

text \<open>
  \<open>generateNext5FromEvents(events)\<close>. Reading \<open>events[0].start\<close> of an empty array
  throws a TypeError. The result is \<open>None\<close> when the loop never returns.
\<close>

definition generateNext5FromEvents :: "luxon_env \<Rightarrow> parsedEvent list \<Rightarrow> (error + occurrence list) option" where
  "generateNext5FromEvents env events =
     (case events of
        [] \<Rightarrow> Some (Inl TypeError)
      | e0 # _ \<Rightarrow>
          (let eventStartDate = setZone env (dateTime (ev_start e0)) (timeZone (ev_start e0));
               recurringDays = fst (collectDays events);
               dayToDeadlineOffset = snd (collectDays events);
               tz = timeZone (ev_start e0);
               now = setZone env (dtNow env) tz;
               currentDate = dtMax (startOfDay env now) (startOfDay env eventStartDate)
           in map_option Inr
                (walkDays env now tz recurringDays dayToDeadlineOffset currentDate 0 [])))"

section \<open>The projector's rule for one day, as the specification words it\<close>

text \<open>
  The weekday an event governs is the \<open>BYDAY\<close> value of its first recurrence string.
  A weekday is governed when some event governs it, and its offset is the deadline
  offset of the last event of the list that governs it, or 2 when that event carries
  none.
\<close>

definition governedDay :: "parsedEvent \<Rightarrow> string option" where
  "governedDay e = (case ev_recurrence e of Some (rule # _) \<Rightarrow> bydayMatch rule | _ \<Rightarrow> None)"

definition weekdayOffset :: "parsedEvent list \<Rightarrow> string \<Rightarrow> int option" where
  "weekdayOffset events abbr =
     (case filter (\<lambda>e. governedDay e = Some abbr) events of
        [] \<Rightarrow> None
      | e # es \<Rightarrow> Some (case ev_deadlineOffset (last (e # es)) of None \<Rightarrow> 2 | Some k \<Rightarrow> k))"

text \<open>
  What one candidate day contributes: nothing when its weekday is not governed;
  otherwise the run is that day at noon, the deadline is the run minus the weekday's
  offset in days, and the occurrence is kept exactly when the deadline is after now.
\<close>

definition dayContribution :: "luxon_env \<Rightarrow> DateTime \<Rightarrow> string \<Rightarrow> parsedEvent list
    \<Rightarrow> DateTime \<Rightarrow> occurrence list" where
  "dayContribution env now tz events day =
     (case dayAbbrOf (weekday day) of
        None \<Rightarrow> []
      | Some abbr \<Rightarrow>
          (case weekdayOffset events abbr of
             None \<Rightarrow> []
           | Some k \<Rightarrow>
               (let run = setHMSms env day 12 0 0 0;
                    deadline = minusDays env run k
                in if dtGreater deadline now
                   then [\<lparr> runDate = run, submissionDate = deadline, timezone = tz,
                           timezoneAbbr = getTimezoneAbbreviation env tz run,
                           occ_deadlineOffset = k \<rparr>]
                   else [])))"

text \<open>
  \<open>scanDays\<close> lists what \<open>n\<close> days contribute, one day after the other: each next day
  is the day before plus one day.
\<close>

fun scanDays :: "luxon_env \<Rightarrow> DateTime \<Rightarrow> string \<Rightarrow> parsedEvent list \<Rightarrow> DateTime \<Rightarrow> nat
    \<Rightarrow> occurrence list" where
  "scanDays env now tz events day 0 = []"
| "scanDays env now tz events day (Suc n) =
     dayContribution env now tz events day @ scanDays env now tz events (plusDays env day 1) n"

text \<open>
  The scan the projector is compared with: now and the days are read in the first
  event's zone, and the first day is the later of today and the day of the first
  event's start.
\<close>

definition scanFromStart :: "luxon_env \<Rightarrow> parsedEvent list \<Rightarrow> nat \<Rightarrow> occurrence list" where
  "scanFromStart env events n =
     (let tz = timeZone (ev_start (hd events));
          now = setZone env (dtNow env) tz
      in scanDays env now tz events
           (dtMax (startOfDay env now)
                  (startOfDay env (setZone env (dateTime (ev_start (hd events))) tz))) n)"

text \<open>
  The calendar date an instant has in a zone, as a day number, and the zone's clock
  running at one offset over a stretch of time.
\<close>

definition dateIn :: "luxon_env \<Rightarrow> string \<Rightarrow> int \<Rightarrow> int" where
  "dateIn env z t = localDay t (zoneOffset env z t)"

definition steadyClock :: "luxon_env \<Rightarrow> string \<Rightarrow> int \<Rightarrow> int \<Rightarrow> int \<Rightarrow> bool" where
  "steadyClock env z off t0 t1 = (\<forall>t. t0 \<le> t \<and> t \<le> t1 \<longrightarrow> zoneOffset env z t = off)"

section \<open>The records of the blocks, as the specification words them\<close>

text \<open>
  The raw records a list of lines yields, in order: a block opens at
  \<open>BEGIN:VEVENT\<close>, each line with a colon inside it sets a property, and
  \<open>END:VEVENT\<close> yields the record when it has at least one property. \<open>cur\<close> and
  \<open>inEv\<close> are the record under construction and whether a block is open.
\<close>

fun blockRecords :: "luxon_env \<Rightarrow> rawEvent option \<Rightarrow> bool \<Rightarrow> string list \<Rightarrow> rawEvent list" where
  "blockRecords env cur inEv [] = []"
| "blockRecords env cur inEv (line # rest) =
     (if line = ''BEGIN:VEVENT'' then blockRecords env (Some emptyEvent) True rest
      else if line = ''END:VEVENT'' \<and> inEv then
        (case cur of
           None \<Rightarrow> []
         | Some e \<Rightarrow> (if hasKeys e then [e] else []))
        @ blockRecords env None False rest
      else if inEv \<and> strIncludes line '':'' then
        blockRecords env (map_option (\<lambda>e. parseProperty env e line) cur) inEv rest
      else blockRecords env cur inEv rest)"

definition recordsOf :: "luxon_env \<Rightarrow> string \<Rightarrow> rawEvent list" where
  "recordsOf env icsContent =
     blockRecords env None False (map trim (splitChar (CHR 0x0A) icsContent))"

text \<open>A record the resolver can process: it has a start, and its end is not invalid.\<close>

definition processable :: "rawEvent \<Rightarrow> bool" where
  "processable e = (case startDate e of
                      None \<Rightarrow> False
                    | Some s \<Rightarrow> (case endDate e of Some Invalid \<Rightarrow> False | _ \<Rightarrow> True))"

section \<open>Concrete inputs\<close>

text \<open>
  A zone database with three zones, New York and Chicago with their clock changes of
  2025 (daylight saving time from 9 March to 2 November), and a clock that reads
  Tuesday 2025-01-07 15:00 UTC on a server running in UTC.
\<close>

definition newYorkOffset :: "int \<Rightarrow> int" where
  "newYorkOffset t = (if 1741503600000 \<le> t \<and> t < 1762063200000 then - 240 else - 300)"

definition chicagoOffset :: "int \<Rightarrow> int" where
  "chicagoOffset t = (if 1741507200000 \<le> t \<and> t < 1762066800000 then - 300 else - 360)"

definition exampleZones :: "string \<Rightarrow> (int \<Rightarrow> int) option" where
  "exampleZones z =
     (if z = ''UTC'' then Some (\<lambda>t. 0)
      else if z = ''America/New_York'' then Some newYorkOffset
      else if z = ''America/Chicago'' then Some chicagoOffset
      else None)"

definition exampleEnv :: luxon_env where
  "exampleEnv = \<lparr> tzdb = exampleZones, nowTs = 1736262000000, systemZone = ''UTC'',
     fromISO = (\<lambda>s. Invalid),
     offsetNameShort = (\<lambda>z t. if z = ''America/New_York''
                                then (if newYorkOffset t = - 240 then ''EDT'' else ''EST'')
                               else if z = ''America/Chicago''
                                then (if chicagoOffset t = - 300 then ''CDT'' else ''CST'')
                               else ''UTC'') \<rparr>"

text \<open>A stored weekly event of one weekday, as the resolver builds it.\<close>

definition weeklyEvent :: "string \<Rightarrow> DateTime \<Rightarrow> string \<Rightarrow> int \<Rightarrow> parsedEvent" where
  "weeklyEvent day start zone k =
     \<lparr> ev_summary = ''Run'',
       ev_description = [CHR 0x0A, CHR 0x0A] @ ''Source: Paper'' @ [CHR 0x0A]
         @ ''originalUuid: 5409_Adpay--1'' @ [CHR 0x0A] @ ''sessionId: sid'',
       ev_start = \<lparr> dateTime = start, timeZone = zone \<rparr>,
       ev_end = \<lparr> dateTime = start, timeZone = zone \<rparr>,
       ev_recurrence = Some [''RRULE:FREQ=WEEKLY;BYDAY='' @ day],
       ev_source = ''Paper'', ev_originalUid = Some ''5409_Adpay--1'', ev_sessionId = ''sid'',
       ev_isRecurring = True, ev_deadlineOffset = Some k,
       ev_startDate = start, ev_endDate = start, ev_uid = Some ''5409_Adpay--1'' \<rparr>"

text \<open>
  A calendar with a single one-time event on Friday 2025-01-10, and the event the
  resolver stores for it.
\<close>

definition oneTimeIcs :: string where
  "oneTimeIcs = joinWith [CHR 0x0A]
     [''BEGIN:VCALENDAR'', ''BEGIN:VEVENT'', ''UID:5409_Adpay--7'',
      ''DTSTART;TZID=America/New_York:20250110T120000'', ''SUMMARY:Special edition'',
      ''END:VEVENT'', ''END:VCALENDAR'']"

definition oneTimeStored :: parsedEvent where
  "oneTimeStored =
     \<lparr> ev_summary = ''Special edition'',
       ev_description = [CHR 0x0A, CHR 0x0A] @ ''Source: Paper'' @ [CHR 0x0A]
         @ ''originalUuid: 5409_Adpay--7'' @ [CHR 0x0A] @ ''sessionId: sid'',
       ev_start = \<lparr> dateTime = DT 1736528400000 ''America/New_York'' (- 300),
                    timeZone = ''America/New_York'' \<rparr>,
       ev_end = \<lparr> dateTime = DT 1736528400000 ''America/New_York'' (- 300),
                  timeZone = ''America/New_York'' \<rparr>,
       ev_recurrence = None,
       ev_source = ''Paper'', ev_originalUid = Some ''5409_Adpay--7'', ev_sessionId = ''sid'',
       ev_isRecurring = False, ev_deadlineOffset = Some 2,
       ev_startDate = DT 1736528400000 ''America/New_York'' (- 300),
       ev_endDate = DT 1736528400000 ''America/New_York'' (- 300),
       ev_uid = Some ''5409_Adpay--7'' \<rparr>"

text \<open>
  Monday and Wednesday runs with a deadline two days ahead, in New York; the pattern
  starts on Monday 2025-01-06 at noon.
\<close>

definition mondayRun :: parsedEvent where
  "mondayRun =
     weeklyEvent ''MO'' (DT 1736182800000 ''America/New_York'' (- 300)) ''America/New_York'' 2"

definition wednesdayRun :: parsedEvent where
  "wednesdayRun =
     weeklyEvent ''WE'' (DT 1736182800000 ''America/New_York'' (- 300)) ''America/New_York'' 2"

definition mondayWednesday :: "parsedEvent list" where
  "mondayWednesday = [mondayRun, wednesdayRun]"

definition occurrenceAt :: "int \<Rightarrow> int \<Rightarrow> string \<Rightarrow> int \<Rightarrow> string \<Rightarrow> int \<Rightarrow> occurrence" where
  "occurrenceAt run deadline zone off abbr k =
     \<lparr> runDate = DT run zone off, submissionDate = DT deadline zone off, timezone = zone,
       timezoneAbbr = abbr, occ_deadlineOffset = k \<rparr>"

definition mondayWednesdayNext5 :: "occurrence list" where
  "mondayWednesdayNext5 =
     [occurrenceAt 1736787600000 1736614800000 ''America/New_York'' (- 300) ''EST'' 2,
      occurrenceAt 1736960400000 1736787600000 ''America/New_York'' (- 300) ''EST'' 2,
      occurrenceAt 1737392400000 1737219600000 ''America/New_York'' (- 300) ''EST'' 2,
      occurrenceAt 1737565200000 1737392400000 ''America/New_York'' (- 300) ''EST'' 2,
      occurrenceAt 1737997200000 1737824400000 ''America/New_York'' (- 300) ''EST'' 2]"

text \<open>The same source with its Wednesday event entered in another zone.\<close>

definition wednesdayRunCentral :: parsedEvent where
  "wednesdayRunCentral =
     weeklyEvent ''WE'' (DT 1736359200000 ''America/Chicago'' (- 360)) ''America/Chicago'' 2"

definition mixedZones :: "parsedEvent list" where
  "mixedZones = [mondayRun, wednesdayRunCentral]"

section \<open>The dedup keys of a record, as the specification words them\<close>

text \<open>
  The keys a raw record maps to: for a recurring record one key per valid weekday of
  its rule, built from the logical source id, the weekday index and the hour and
  minute of its (possibly advanced) start; for a one-time record the key built from
  the raw unique id and the start instant. A record without a start has none.
\<close>

definition dedupKeys :: "luxon_env \<Rightarrow> rawEvent \<Rightarrow> string option \<Rightarrow> bool \<Rightarrow> DateTime
    \<Rightarrow> string list" where
  "dedupKeys env currentEvent rawRrule isRecurringEvent today =
     (case adjustTimes env currentEvent isRecurringEvent today of
        Inr (Some st, _) \<Rightarrow>
          (if isRecurringEvent then
             List.map_filter
               (\<lambda>day. case day of
                         None \<Rightarrow> None
                       | Some d \<Rightarrow>
                           map_option
                             (\<lambda>i. dayPatternKey (baseUidOf (uid currentEvent)) i (timeKeyOf st))
                             (dayIndexOf d))
               (daysInRuleOf rawRrule st)
           else [oneTimeKey (uid currentEvent) st])
      | _ \<Rightarrow> [])"

text \<open>
  Three calendars with one weekly Monday event each: the first sets the deadline
  offset to 0, the second has no offset property, the third gives a word for it.
\<close>

definition weeklyIcs :: "string list \<Rightarrow> string" where
  "weeklyIcs extra = joinWith [CHR 0x0A]
     ([''BEGIN:VCALENDAR'', ''BEGIN:VEVENT'', ''UID:5409_Adpay--1'',
       ''DTSTART;TZID=America/New_York:20250113T120000'',
       ''RRULE:FREQ=WEEKLY;BYDAY=MO'', ''SUMMARY:Run''] @ extra
      @ [''END:VEVENT'', ''END:VCALENDAR''])"

definition offsetZeroIcs :: string where
  "offsetZeroIcs = weeklyIcs [''X-PUB-DEADLINE-OFFSET:0'']"

definition offsetAbsentIcs :: string where
  "offsetAbsentIcs = weeklyIcs []"

definition offsetWordIcs :: string where
  "offsetWordIcs = weeklyIcs [''X-PUB-DEADLINE-OFFSET:two'']"

definition exampleUrl :: string where
  "exampleUrl = ''https://s3.amazonaws.com/calendar/paper.ics''"

text \<open>
  Two raw records of one logical source with the same weekday and time of day and
  different summaries, the rule that governs them, and the entry stored for the first.
\<close>

definition firstRecord :: rawEvent where
  "firstRecord = emptyEvent\<lparr> uid := Some ''5409_Adpay--1'', summary := Some ''First'',
     startDate := Some (DT 1736787600000 ''America/New_York'' (- 300)),
     startTimezone := Some ''America/New_York'' \<rparr>"

definition secondRecord :: rawEvent where
  "secondRecord = emptyEvent\<lparr> uid := Some ''5409_Adpay--2'', summary := Some ''Second'',
     startDate := Some (DT 1736787600000 ''America/New_York'' (- 300)),
     startTimezone := Some ''America/New_York'' \<rparr>"

definition mondayRule :: "string option" where
  "mondayRule = Some ''FREQ=WEEKLY;BYDAY=MO''"

definition exampleToday :: DateTime where
  "exampleToday = DT 1736208000000 ''UTC'' 0"

definition firstStored :: "string \<times> parsedEvent" where
  "firstStored =
     (''5409_Adpay_1_12:00'',
      \<lparr> ev_summary = ''First'',
        ev_description = [CHR 0x0A, CHR 0x0A] @ ''Source: Paper'' @ [CHR 0x0A]
          @ ''originalUuid: 5409_Adpay--1'' @ [CHR 0x0A] @ ''sessionId: sid'',
        ev_start = \<lparr> dateTime = DT 1736787600000 ''America/New_York'' (- 300),
                     timeZone = ''America/New_York'' \<rparr>,
        ev_end = \<lparr> dateTime = DT 1736787600000 ''America/New_York'' (- 300),
                   timeZone = ''America/New_York'' \<rparr>,
        ev_recurrence = Some [''RRULE:FREQ=WEEKLY;BYDAY=MO''],
        ev_source = ''Paper'', ev_originalUid = Some ''5409_Adpay--1'', ev_sessionId = ''sid'',
        ev_isRecurring = True, ev_deadlineOffset = Some 2,
        ev_startDate = DT 1736787600000 ''America/New_York'' (- 300),
        ev_endDate = DT 1736787600000 ''America/New_York'' (- 300),
        ev_uid = Some ''5409_Adpay--1'' \<rparr>)"

text \<open>A record of a rule with three weekdays, and a rule without a weekday list.\<close>

definition threeDayRule :: "string option" where
  "threeDayRule = Some ''FREQ=WEEKLY;BYDAY=MO,WE,FR''"

definition weeklyRule :: "string option" where
  "weeklyRule = Some ''FREQ=WEEKLY''"

text \<open>
  A weekly record entered in UTC whose start, Tuesday 2024-12-31 at 10:00, lies a
  week before the example day; it lasts one hour.
\<close>

definition staleRecord :: rawEvent where
  "staleRecord = emptyEvent\<lparr> uid := Some ''5409_Adpay--1'', summary := Some ''Run'',
     startDate := Some (DT 1735639200000 ''UTC'' 0), startTimezone := Some ''UTC'',
     endDate := Some (DT 1735642800000 ''UTC'' 0), endTimezone := Some ''UTC'' \<rparr>"

text \<open>
  Two start lines with a zone parameter: the first value ends in Z, the second does
  not.
\<close>

definition tzidZuluLine :: string where
  "tzidZuluLine = ''DTSTART;TZID=America/Chicago:20250101T120000Z''"

definition tzidLocalLine :: string where
  "tzidLocalLine = ''DTSTART;TZID=America/Chicago:20250101T120000''"

text \<open>
  A block without a start, and a calendar with stray text, a line without a colon,
  an unknown property, and dates that cannot be read.
\<close>

definition noStartIcs :: string where
  "noStartIcs = joinWith [CHR 0x0A] [''BEGIN:VEVENT'', ''SUMMARY:Untimed'', ''END:VEVENT'']"

definition messyIcs :: string where
  "messyIcs = joinWith [CHR 0x0A]
     [''stray text'', ''BEGIN:VEVENT'', ''UID:5409_Adpay--1'',
      ''DTSTART;TZID=America/New_York:20250113T120000'', ''no colon here'',
      ''X-UNKNOWN;PARAM=1:value'', ''CREATED:not a date'', ''DTEND:2025XX13T130000'',
      ''RRULE:FREQ=WEEKLY;BYDAY=MO'', ''END:VEVENT'', ''END:VEVENT'', ''SUMMARY:outside'']"

text \<open>
  Runs on Tuesday, Wednesday and Thursday in New York: the Tuesday run closes on its
  own day (offset 0), the Wednesday run two days ahead, and the Thursday event carries
  no offset. \<open>weekNext5\<close> lists the five occurrences that follow the example clock.
\<close>

definition tuesdayRun :: parsedEvent where
  "tuesdayRun =
     weeklyEvent ''TU'' (DT 1736182800000 ''America/New_York'' (- 300)) ''America/New_York'' 0"

definition thursdayRun :: parsedEvent where
  "thursdayRun =
     (weeklyEvent ''TH'' (DT 1736182800000 ''America/New_York'' (- 300)) ''America/New_York'' 2)
       \<lparr> ev_deadlineOffset := None \<rparr>"

definition weekRuns :: "parsedEvent list" where
  "weekRuns = [tuesdayRun, wednesdayRun, thursdayRun]"

definition weekNext5 :: "occurrence list" where
  "weekNext5 =
     [occurrenceAt 1736269200000 1736269200000 ''America/New_York'' (- 300) ''EST'' 0,
      occurrenceAt 1736442000000 1736269200000 ''America/New_York'' (- 300) ''EST'' 2,
      occurrenceAt 1736874000000 1736874000000 ''America/New_York'' (- 300) ''EST'' 0,
      occurrenceAt 1736960400000 1736787600000 ''America/New_York'' (- 300) ''EST'' 2,
      occurrenceAt 1737046800000 1736874000000 ''America/New_York'' (- 300) ''EST'' 2]"

text \<open>
  The clock of Wednesday 2025-03-05 15:00 UTC, four days before New York moves its
  clock forward, and the first Monday run after it with its deadline.
\<close>

definition marchEnv :: luxon_env where
  "marchEnv = exampleEnv\<lparr> nowTs := 1741186800000 \<rparr>"

definition marchMonday :: occurrence where
  "marchMonday =
     \<lparr> runDate = DT 1741622400000 ''America/New_York'' (- 240),
       submissionDate = DT 1741453200000 ''America/New_York'' (- 300),
       timezone = ''America/New_York'', timezoneAbbr = ''EDT'', occ_deadlineOffset = 2 \<rparr>"

text \<open>
  The five Monday runs that follow the example clock for the weekly Monday event of
  \<open>weeklyIcs\<close>, with the deadline on the day of the run and two days before it.
\<close>

definition mondayRuns :: "int list" where
  "mondayRuns = [1736787600000, 1737392400000, 1737997200000, 1738602000000, 1739206800000]"

definition mondaysSameDay :: "occurrence list" where
  "mondaysSameDay =
     map (\<lambda>r. occurrenceAt r r ''America/New_York'' (- 300) ''EST'' 0) mondayRuns"

definition mondaysTwoDaysAhead :: "occurrence list" where
  "mondaysTwoDaysAhead =
     map (\<lambda>r. occurrenceAt r (r - 172800000) ''America/New_York'' (- 300) ''EST'' 2) mondayRuns"




text \<open>
  A calendar whose first block is the weekly Monday event and whose second block has
  a summary and no start.
\<close>

definition goodThenUntimedIcs :: string where
  "goodThenUntimedIcs = joinWith [CHR 0x0A]
     [''BEGIN:VCALENDAR'',
      ''BEGIN:VEVENT'', ''UID:5409_Adpay--1'',
      ''DTSTART;TZID=America/New_York:20250113T120000'',
      ''RRULE:FREQ=WEEKLY;BYDAY=MO'', ''SUMMARY:Run'', ''END:VEVENT'',
      ''BEGIN:VEVENT'', ''SUMMARY:Untimed'', ''END:VEVENT'',
      ''END:VCALENDAR'']"


section \<open>Properties of Luxon's arithmetic\<close>

text \<open>
  When the zone has the guessed offset at the guessed instant, the wall clock is found
  at once.
\<close>

lemma fixOffset_steady:
  "zoneOffset env z (l - off * 60000) = off \<Longrightarrow> fixOffset env z l off = (l - off * 60000, off)"
  by (simp add: fixOffset_def Let_def)

lemma mkDateTime_cases:
  "mkDateTime t z off = Invalid \<or> (mkDateTime t z off = DT t z off \<and> inRange t \<and> inRange (localTs t off))"
  by (simp add: mkDateTime_def)

lemma fromWall_steady:
  assumes "zoneOffset env z (l - off * 60000) = off"
  shows "fromWall env z off l = mkDateTime (l - off * 60000) z off"
  using assms
  by (simp add: fromWall_def fixOffset_steady atInstant_def mkDateTime_def localTs_def)

text \<open>
  The values that \<open>set\<close> and \<open>plus\<close> return are well-formed, and adding no days to a
  well-formed value gives it back.
\<close>

lemma atInstant_wellFormed: "wellFormed env (atInstant env z t)"
  by (simp add: wellFormed_def atInstant_def mkDateTime_def)

lemma fromWall_wellFormed: "wellFormed env (fromWall env z off l)"
  by (simp add: fromWall_def atInstant_wellFormed) (simp add: wellFormed_def)

lemma setHMSms_wellFormed: "wellFormed env (setHMSms env d h m s ms)"
  by (cases d) (simp_all add: fromWall_wellFormed, simp add: wellFormed_def)

lemma plusDays_wellFormed: "wellFormed env (plusDays env d n)"
  by (cases d) (simp_all add: fromWall_wellFormed, simp add: wellFormed_def)

lemma plusDays_0: "wellFormed env d \<Longrightarrow> plusDays env d 0 = d"
  by (cases d)
     (simp_all add: wellFormed_def fromWall_def fixOffset_def Let_def atInstant_def
        mkDateTime_def localTs_def)

lemma minusDays_0: "wellFormed env d \<Longrightarrow> minusDays env d 0 = d"
  by (simp add: minusDays_def plusDays_0)

section \<open>Properties of the projector\<close>

subsection \<open>The days and offsets the projector collects\<close>

lemma collectDay_governed:
  "collectDay e acc =
     (case governedDay e of
        None \<Rightarrow> acc
      | Some d \<Rightarrow> (List.insert d (fst acc),
                   AList.update d (case ev_deadlineOffset e of Some k \<Rightarrow> k | None \<Rightarrow> 2)
                     (snd acc)))"
  by (auto simp: collectDay_def governedDay_def bydayMatch_def split: option.splits list.splits)

lemma weekdayOffset_Nil: "weekdayOffset [] abbr = None"
  by (simp add: weekdayOffset_def)

lemma weekdayOffset_Cons:
  "weekdayOffset (e # es) abbr =
     (case weekdayOffset es abbr of
        Some k \<Rightarrow> Some k
      | None \<Rightarrow> (if governedDay e = Some abbr
                 then Some (case ev_deadlineOffset e of None \<Rightarrow> 2 | Some k \<Rightarrow> k) else None))"
  by (simp add: weekdayOffset_def split: list.splits)

lemma fold_collectDay:
  "(abbr \<in> set (fst (fold collectDay events acc))
      \<longleftrightarrow> abbr \<in> set (fst acc) \<or> weekdayOffset events abbr \<noteq> None)
   \<and> map_of (snd (fold collectDay events acc)) abbr =
       (case weekdayOffset events abbr of Some k \<Rightarrow> Some k | None \<Rightarrow> map_of (snd acc) abbr)"
proof (induction events arbitrary: acc)
  case Nil
  then show ?case by (simp add: weekdayOffset_Nil)
next
  case (Cons e es)
  show ?case
  proof (cases "governedDay e")
    case None
    then have "collectDay e acc = acc" by (simp add: collectDay_governed)
    with Cons.IH[of acc] None show ?thesis
      by (simp add: weekdayOffset_Cons split: option.splits)
  next
    case (Some d)
    let ?acc = "(List.insert d (fst acc),
        AList.update d (case ev_deadlineOffset e of Some k \<Rightarrow> k | None \<Rightarrow> 2) (snd acc))"
    from Some have c: "collectDay e acc = ?acc" by (simp add: collectDay_governed)
    from Cons.IH[of ?acc] Some show ?thesis
      unfolding fold_simps c
      by (cases "d = abbr") (auto simp: weekdayOffset_Cons update_conv' split: option.splits)
  qed
qed

lemma collectDays_governed:
  "abbr \<in> set (fst (collectDays events)) \<longleftrightarrow> weekdayOffset events abbr \<noteq> None"
  using fold_collectDay[of abbr events "([], [])"] by (simp add: collectDays_def)

lemma collectDays_offset:
  "map_of (snd (collectDays events)) abbr = weekdayOffset events abbr"
  using fold_collectDay[of abbr events "([], [])"]
  by (simp add: collectDays_def split: option.splits)

subsection \<open>The loop, step by step\<close>

lemma visitDay_contribution:
  "visitDay env now tz (fst (collectDays events)) (snd (collectDays events)) cur count dates =
     (count + length (dayContribution env now tz events cur),
      dates @ dayContribution env now tz events cur)"
proof (cases "dayAbbrOf (weekday cur)")
  case None
  then show ?thesis by (simp add: visitDay_def dayContribution_def)
next
  case (Some abbr)
  show ?thesis
  proof (cases "weekdayOffset events abbr")
    case None
    with Some show ?thesis
      by (simp add: visitDay_def dayContribution_def collectDays_governed)
  next
    case k: (Some k)
    with Some show ?thesis
      by (simp add: visitDay_def dayContribution_def collectDays_governed collectDays_offset
          Let_def)
  qed
qed

lemma dayContribution_length: "length (dayContribution env now tz events cur) \<le> 1"
  by (simp add: dayContribution_def Let_def split: option.splits)

lemma walkDays_done: "5 \<le> count \<Longrightarrow> walkDays env now tz rd offs cur count dates = Some dates"
  by (subst walkDays.simps) simp

lemma walkDays_step:
  "count < 5 \<Longrightarrow>
   walkDays env now tz (fst (collectDays events)) (snd (collectDays events)) cur count dates =
     walkDays env now tz (fst (collectDays events)) (snd (collectDays events))
       (plusDays env cur 1)
       (count + length (dayContribution env now tz events cur))
       (dates @ dayContribution env now tz events cur)"
  by (subst walkDays.simps) (simp add: visitDay_contribution)


subsection \<open>A run that returns has scanned the days one after the other\<close>

lemma walkDays_scan:
  assumes "walkDays env now tz (fst (collectDays events)) (snd (collectDays events))
             cur count dates = Some y"
  shows "count \<le> 5 \<longrightarrow> (\<exists>n. y = dates @ scanDays env now tz events cur n
            \<and> count + length (scanDays env now tz events cur n) = 5)"
proof -
  have "\<forall>events. fst (collectDays events0) = fst (collectDays events)
          \<and> snd (collectDays events0) = snd (collectDays events) \<longrightarrow>
        count \<le> 5 \<longrightarrow> (\<exists>n. y = dates @ scanDays env now tz events cur n
            \<and> count + length (scanDays env now tz events cur n) = 5)"
    if "walkDays env now tz (fst (collectDays events0)) (snd (collectDays events0))
          cur count dates = Some y" for events0
  proof (rule walkDays.raw_induct[where P = "\<lambda>env now tz rd offs cur count dates y.
      \<forall>events. rd = fst (collectDays events) \<and> offs = snd (collectDays events) \<longrightarrow>
        count \<le> 5 \<longrightarrow> (\<exists>n. y = dates @ scanDays env now tz events cur n
            \<and> count + length (scanDays env now tz events cur n) = 5)", OF _ that])
    fix w env now tz rd offs cur and count :: nat and dates y
    assume ih: "\<And>env now tz rd offs cur count dates y.
        w env now tz rd offs cur count dates = Some y \<Longrightarrow>
        \<forall>events. rd = fst (collectDays events) \<and> offs = snd (collectDays events) \<longrightarrow>
          count \<le> 5 \<longrightarrow> (\<exists>n. y = dates @ scanDays env now tz events cur n
            \<and> count + length (scanDays env now tz events cur n) = 5)"
      and st: "(if count < 5 then w env now tz rd offs (plusDays env cur 1)
            (fst (visitDay env now tz rd offs cur count dates))
            (snd (visitDay env now tz rd offs cur count dates)) else Some dates) = Some y"
    show "\<forall>events. rd = fst (collectDays events) \<and> offs = snd (collectDays events) \<longrightarrow>
          count \<le> 5 \<longrightarrow> (\<exists>n. y = dates @ scanDays env now tz events cur n
            \<and> count + length (scanDays env now tz events cur n) = 5)"
    proof (intro allI impI, elim conjE)
      fix events
      assume rd: "rd = fst (collectDays events)" and offs: "offs = snd (collectDays events)"
        and le: "count \<le> 5"
      let ?c = "dayContribution env now tz events cur"
      show "\<exists>n. y = dates @ scanDays env now tz events cur n
            \<and> count + length (scanDays env now tz events cur n) = 5"
      proof (cases "count < 5")
        case False
        with le st have "y = dates" "count = 5" by simp_all
        then have "y = dates @ scanDays env now tz events cur 0
            \<and> count + length (scanDays env now tz events cur 0) = 5"
          by simp
        then show ?thesis ..
      next
        case True
        with st have "w env now tz rd offs (plusDays env cur 1) (count + length ?c) (dates @ ?c)
            = Some y"
          unfolding rd offs by (simp add: visitDay_contribution)
        from ih[OF this] rd offs True dayContribution_length[of env now tz events cur]
        obtain n where n: "y = (dates @ ?c) @ scanDays env now tz events (plusDays env cur 1) n"
          "(count + length ?c) + length (scanDays env now tz events (plusDays env cur 1) n) = 5"
          by auto
        then have "y = dates @ scanDays env now tz events cur (Suc n)
            \<and> count + length (scanDays env now tz events cur (Suc n)) = 5"
          by simp
        then show ?thesis ..
      qed
    qed
  qed
  from this[OF assms] show ?thesis by blast
qed

subsection \<open>A run returns as soon as the days ahead hold enough occurrences\<close>

lemma walkDays_returns:
  "count \<le> 5 \<Longrightarrow> 5 \<le> count + length (scanDays env now tz events cur n) \<Longrightarrow>
   walkDays env now tz (fst (collectDays events)) (snd (collectDays events)) cur count dates =
     Some (dates @ take (5 - count) (scanDays env now tz events cur n))"
proof (induction n arbitrary: cur count dates)
  case 0
  then have "count = 5" by simp
  then show ?case by (simp add: walkDays_done)
next
  case (Suc n)
  let ?c = "dayContribution env now tz events cur"
  let ?r = "scanDays env now tz events (plusDays env cur 1) n"
  show ?case
  proof (cases "count < 5")
    case False
    with Suc.prems have "count = 5" by simp
    then show ?thesis by (simp add: walkDays_done)
  next
    case True
    have len: "length ?c \<le> 1" by (rule dayContribution_length)
    with True have le: "count + length ?c \<le> 5" by simp
    from Suc.prems(2) have ge: "5 \<le> (count + length ?c) + length ?r" by simp
    have "walkDays env now tz (fst (collectDays events)) (snd (collectDays events)) cur count dates
        = walkDays env now tz (fst (collectDays events)) (snd (collectDays events))
            (plusDays env cur 1) (count + length ?c) (dates @ ?c)"
      using True by (rule walkDays_step)
    also have "\<dots> = Some ((dates @ ?c) @ take (5 - (count + length ?c)) ?r)"
      by (rule Suc.IH[OF le ge])
    also have "(dates @ ?c) @ take (5 - (count + length ?c)) ?r
        = dates @ take (5 - count) (?c @ ?r)"
      using le by simp
    finally show ?thesis by simp
  qed
qed

subsection \<open>A run without a governed weekday never returns\<close>

lemma walkDays_returns_only_at_5:
  assumes "walkDays env now tz rd offs cur count dates = Some y"
  shows "rd = [] \<longrightarrow> 5 \<le> count"
proof (rule walkDays.raw_induct[where P = "\<lambda>env now tz rd offs cur count dates y.
    rd = [] \<longrightarrow> 5 \<le> count", OF _ assms])
  fix w env now tz rd offs cur and count :: nat and dates y
  assume ih: "\<And>env now tz rd offs cur count dates y.
      w env now tz rd offs cur count dates = Some y \<Longrightarrow> rd = [] \<longrightarrow> 5 \<le> count"
    and st: "(if count < 5 then w env now tz rd offs (plusDays env cur 1)
          (fst (visitDay env now tz rd offs cur count dates))
          (snd (visitDay env now tz rd offs cur count dates)) else Some dates) = Some y"
  show "rd = [] \<longrightarrow> 5 \<le> count"
  proof
    assume e: "rd = []"
    show "5 \<le> count"
    proof (rule ccontr)
      assume "\<not> 5 \<le> count"
      then have c: "count < 5" by simp
      have v: "visitDay env now tz [] offs cur count dates = (count, dates)"
        by (simp add: visitDay_def split: option.splits)
      from st c e v have "w env now tz [] offs (plusDays env cur 1) count dates = Some y"
        by simp
      from ih[OF this] c show False by simp
    qed
  qed
qed

lemma walkDays_no_days:
  "count < 5 \<Longrightarrow> walkDays env now tz [] offs cur count dates = None"
proof (cases "walkDays env now tz [] offs cur count dates")
  case None
  then show ?thesis by simp
next
  case (Some y)
  assume "count < 5"
  with walkDays_returns_only_at_5[OF Some] show ?thesis by simp
qed

lemma collectDays_not_recurring:
  "ev_recurrence e = None \<Longrightarrow> collectDays [e] = ([], [])"
  by (simp add: collectDays_def collectDay_def)

lemma oneTimeIcs_parsed:
  "parseIcsContent exampleEnv ''sid'' oneTimeIcs ''https://s3.amazonaws.com/calendar/paper.ics''
     = Inr [oneTimeStored]"
  by code_simp

text \<open>
  C1. The claim: the projector terminates on every input, also when no event governs
  a weekday. The code at the failing input: the calendar \<open>oneTimeIcs\<close> holds one
  future one-time event; the parser stores it, the caller passes the stored events of
  the publication to the projector, and the projector's loop, which only ends when five
  occurrences are accepted, never returns.
\<close>

theorem projector_diverges_on_one_time_event:
  "parseIcsContent exampleEnv ''sid'' oneTimeIcs ''https://s3.amazonaws.com/calendar/paper.ics''
     = Inr [oneTimeStored]
   \<and> generateNext5FromEvents exampleEnv [oneTimeStored] = None"
proof -
  have "collectDays [oneTimeStored] = ([], [])"
    by (rule collectDays_not_recurring) (simp add: oneTimeStored_def)
  then have "generateNext5FromEvents exampleEnv [oneTimeStored] = None"
    by (simp add: generateNext5FromEvents_def Let_def walkDays_no_days)
  with oneTimeIcs_parsed show ?thesis by simp
qed


subsection \<open>The projector as a whole\<close>

lemma generateNext5_unfold:
  assumes "events \<noteq> []"
  shows "generateNext5FromEvents env events =
     map_option Inr
       (walkDays env (setZone env (dtNow env) (timeZone (ev_start (hd events))))
          (timeZone (ev_start (hd events)))
          (fst (collectDays events)) (snd (collectDays events))
          (dtMax (startOfDay env (setZone env (dtNow env) (timeZone (ev_start (hd events)))))
                 (startOfDay env (setZone env (dateTime (ev_start (hd events)))
                                    (timeZone (ev_start (hd events)))))) 0 [])"
  using assms by (cases events) (simp_all add: generateNext5FromEvents_def Let_def)

lemma noon_steady:
  assumes "zoneOffset env z (localDay t off * msPerDay + 43200000 - off * 60000) = off"
  shows "setHMSms env (DT t z off) 12 0 0 0
     = mkDateTime (localDay t off * msPerDay + 43200000 - off * 60000) z off"
  using fromWall_steady[of env z "localDay t off * msPerDay + 43200000" off] assms
  by simp

lemma minusDays_steady:
  assumes "zoneOffset env z (t - k * msPerDay) = off" "inRange t" "inRange (localTs t off)"
  shows "minusDays env (DT t z off) k = mkDateTime (t - k * msPerDay) z off"
proof -
  have e: "localTs t off - k * msPerDay - off * 60000 = t - k * msPerDay"
    by (simp add: localTs_def)
  have "fromWall env z off (localTs t off - k * msPerDay)
      = mkDateTime (localTs t off - k * msPerDay - off * 60000) z off"
    by (rule fromWall_steady) (simp only: e assms(1))
  then show ?thesis by (simp add: minusDays_def e)
qed

text \<open>
  C5. The projector returns as soon as the days from its first day onwards hold five
  occurrences, and what it returns is the first five of them in the order of the days;
  it returns nothing else. Each day is the day before plus one day. A day whose weekday
  is governed contributes its run at noon, with the deadline the weekday's offset in
  days before the run, exactly when the deadline is after now; any other day, and a day
  whose deadline has passed, contributes nothing and the walk goes on. With offset 0
  the deadline is the run itself. Where the zone keeps the offset of the day, the run
  is the instant of 12:00 on that date and the deadline the instant that many times 24
  hours earlier.
\<close>

theorem projector_walks_day_by_day:
  assumes "events \<noteq> []"
  shows "(\<forall>n. 5 \<le> length (scanFromStart env events n) \<longrightarrow>
            generateNext5FromEvents env events = Some (Inr (take 5 (scanFromStart env events n))))
     \<and> (\<forall>r. generateNext5FromEvents env events = Some r \<longrightarrow>
            (\<exists>n. r = Inr (scanFromStart env events n)
                 \<and> length (scanFromStart env events n) = 5))
     \<and> (\<forall>now tz day abbr k.
            dayAbbrOf (weekday day) = Some abbr \<and> weekdayOffset events abbr = Some k \<longrightarrow>
            dayContribution env now tz events day =
              (if dtGreater (minusDays env (setHMSms env day 12 0 0 0) k) now
               then [\<lparr> runDate = setHMSms env day 12 0 0 0,
                       submissionDate = minusDays env (setHMSms env day 12 0 0 0) k,
                       timezone = tz,
                       timezoneAbbr = getTimezoneAbbreviation env tz (setHMSms env day 12 0 0 0),
                       occ_deadlineOffset = k \<rparr>]
               else []))
     \<and> (\<forall>now tz day.
            dayAbbrOf (weekday day) = None
            \<or> weekdayOffset events (the (dayAbbrOf (weekday day))) = None \<longrightarrow>
            dayContribution env now tz events day = [])
     \<and> (\<forall>day. minusDays env (setHMSms env day 12 0 0 0) 0 = setHMSms env day 12 0 0 0)
     \<and> (\<forall>t z off k.
            zoneOffset env z (localDay t off * msPerDay + 43200000 - off * 60000) = off \<longrightarrow>
            setHMSms env (DT t z off) 12 0 0 0
              = mkDateTime (localDay t off * msPerDay + 43200000 - off * 60000) z off
            \<and> (zoneOffset env z
                  (localDay t off * msPerDay + 43200000 - off * 60000 - k * msPerDay) = off
                \<and> inRange (localDay t off * msPerDay + 43200000 - off * 60000)
                \<and> inRange (localDay t off * msPerDay + 43200000) \<longrightarrow>
                minusDays env (DT (localDay t off * msPerDay + 43200000 - off * 60000) z off) k
                  = mkDateTime
                      (localDay t off * msPerDay + 43200000 - off * 60000 - k * msPerDay) z off))"
proof (intro conjI allI impI)
  let ?tz = "timeZone (ev_start (hd events))"
  let ?now = "setZone env (dtNow env) ?tz"
  let ?start = "dtMax (startOfDay env ?now)
      (startOfDay env (setZone env (dateTime (ev_start (hd events))) ?tz))"
  have scan: "scanFromStart env events n = scanDays env ?now ?tz events ?start n" for n
    by (simp add: scanFromStart_def Let_def)
  {
    fix n assume "5 \<le> length (scanFromStart env events n)"
    then have "5 \<le> 0 + length (scanDays env ?now ?tz events ?start n)" by (simp add: scan)
    from walkDays_returns[OF _ this, of "[]"]
    show "generateNext5FromEvents env events = Some (Inr (take 5 (scanFromStart env events n)))"
      by (simp add: generateNext5_unfold[OF assms] scan)
  }
  {
    fix r assume "generateNext5FromEvents env events = Some r"
    then obtain ds where
      w: "walkDays env ?now ?tz (fst (collectDays events)) (snd (collectDays events)) ?start 0 []
            = Some ds"
      and r: "r = Inr ds"
      by (auto simp: generateNext5_unfold[OF assms])
    from walkDays_scan[OF w] obtain n where
      "ds = scanDays env ?now ?tz events ?start n"
      "length (scanDays env ?now ?tz events ?start n) = 5"
      by auto
    with r show "\<exists>n. r = Inr (scanFromStart env events n)
        \<and> length (scanFromStart env events n) = 5"
      by (auto simp: scan)
  }
  {
    fix now tz day abbr k
    assume "dayAbbrOf (weekday day) = Some abbr \<and> weekdayOffset events abbr = Some k"
    then show "dayContribution env now tz events day =
        (if dtGreater (minusDays env (setHMSms env day 12 0 0 0) k) now
         then [\<lparr> runDate = setHMSms env day 12 0 0 0,
                 submissionDate = minusDays env (setHMSms env day 12 0 0 0) k,
                 timezone = tz,
                 timezoneAbbr = getTimezoneAbbreviation env tz (setHMSms env day 12 0 0 0),
                 occ_deadlineOffset = k \<rparr>]
         else [])"
      by (simp add: dayContribution_def Let_def)
  }
  {
    fix now tz day
    assume "dayAbbrOf (weekday day) = None
        \<or> weekdayOffset events (the (dayAbbrOf (weekday day))) = None"
    then show "dayContribution env now tz events day = []"
      by (auto simp: dayContribution_def split: option.splits)
  }
  {
    fix day
    show "minusDays env (setHMSms env day 12 0 0 0) 0 = setHMSms env day 12 0 0 0"
      by (rule minusDays_0) (rule setHMSms_wellFormed)
  }
  {
    fix t z off k
    assume a: "zoneOffset env z (localDay t off * msPerDay + 43200000 - off * 60000) = off"
    then show "setHMSms env (DT t z off) 12 0 0 0
        = mkDateTime (localDay t off * msPerDay + 43200000 - off * 60000) z off"
      by (rule noon_steady)
    assume "zoneOffset env z
          (localDay t off * msPerDay + 43200000 - off * 60000 - k * msPerDay) = off
        \<and> inRange (localDay t off * msPerDay + 43200000 - off * 60000)
        \<and> inRange (localDay t off * msPerDay + 43200000)"
    then show "minusDays env (DT (localDay t off * msPerDay + 43200000 - off * 60000) z off) k
        = mkDateTime (localDay t off * msPerDay + 43200000 - off * 60000 - k * msPerDay) z off"
      by (intro minusDays_steady) (simp_all add: localTs_def)
  }
qed


lemma weekRuns_scan:
  "5 \<le> length (scanFromStart exampleEnv weekRuns 10)"
  "take 5 (scanFromStart exampleEnv weekRuns 10) = weekNext5"
  by code_simp+

lemma weekRuns_wednesday:
  "dayAbbrOf (weekday (DT 1736312400000 ''America/New_York'' (- 300))) = Some ''WE''"
  "weekdayOffset weekRuns ''WE'' = Some 2"
  "setHMSms exampleEnv (DT 1736312400000 ''America/New_York'' (- 300)) 12 0 0 0
     = DT 1736355600000 ''America/New_York'' (- 300)"
  "minusDays exampleEnv (DT 1736355600000 ''America/New_York'' (- 300)) 2
     = DT 1736182800000 ''America/New_York'' (- 300)"
  by code_simp+

lemma marchMonday_scan:
  "5 \<le> length (scanFromStart marchEnv [mondayRun] 40)"
  "hd (take 5 (scanFromStart marchEnv [mondayRun] 40)) = marchMonday"
  by code_simp+

text \<open>
  At the example clock (Tuesday 10:00 in New York) the Tuesday run of the same day is
  kept, its deadline being its own noon; the Wednesday run of that week is skipped,
  its deadline on Monday noon being past, and the walk goes on to Thursday. In March
  the Monday run after the clock change is at noon of the new clock, and its deadline
  at noon, two days earlier, of the old one.
\<close>

theorem projector_walks_day_by_day_witness:
  "generateNext5FromEvents exampleEnv weekRuns = Some (Inr weekNext5)
   \<and> dayContribution exampleEnv (DT 1736262000000 ''America/New_York'' (- 300))
        ''America/New_York'' weekRuns (DT 1736312400000 ''America/New_York'' (- 300)) = []
   \<and> map_option (map_sum id hd) (generateNext5FromEvents marchEnv [mondayRun])
        = Some (Inr marchMonday)"
proof -
  have ne: "weekRuns \<noteq> []" by (simp add: weekRuns_def)
  note inst = projector_walks_day_by_day[OF ne, of exampleEnv]
  from inst have "\<forall>n. 5 \<le> length (scanFromStart exampleEnv weekRuns n) \<longrightarrow>
      generateNext5FromEvents exampleEnv weekRuns
        = Some (Inr (take 5 (scanFromStart exampleEnv weekRuns n)))"
    by (rule conjunct1)
  with weekRuns_scan have a: "generateNext5FromEvents exampleEnv weekRuns = Some (Inr weekNext5)"
    by metis
  from inst have "\<forall>now tz day abbr k.
      dayAbbrOf (weekday day) = Some abbr \<and> weekdayOffset weekRuns abbr = Some k \<longrightarrow>
      dayContribution exampleEnv now tz weekRuns day =
        (if dtGreater (minusDays exampleEnv (setHMSms exampleEnv day 12 0 0 0) k) now
         then [\<lparr> runDate = setHMSms exampleEnv day 12 0 0 0,
                 submissionDate = minusDays exampleEnv (setHMSms exampleEnv day 12 0 0 0) k,
                 timezone = tz,
                 timezoneAbbr = getTimezoneAbbreviation exampleEnv tz
                   (setHMSms exampleEnv day 12 0 0 0),
                 occ_deadlineOffset = k \<rparr>]
         else [])"
    by (rule conjunct2[THEN conjunct2, THEN conjunct1])
  with weekRuns_wednesday(1,2)
  have "dayContribution exampleEnv (DT 1736262000000 ''America/New_York'' (- 300))
        ''America/New_York'' weekRuns (DT 1736312400000 ''America/New_York'' (- 300)) =
      (if dtGreater (minusDays exampleEnv
            (setHMSms exampleEnv (DT 1736312400000 ''America/New_York'' (- 300)) 12 0 0 0) 2)
          (DT 1736262000000 ''America/New_York'' (- 300))
       then [\<lparr> runDate = setHMSms exampleEnv (DT 1736312400000 ''America/New_York'' (- 300))
                   12 0 0 0,
               submissionDate = minusDays exampleEnv
                 (setHMSms exampleEnv (DT 1736312400000 ''America/New_York'' (- 300)) 12 0 0 0) 2,
               timezone = ''America/New_York'',
               timezoneAbbr = getTimezoneAbbreviation exampleEnv ''America/New_York''
                 (setHMSms exampleEnv (DT 1736312400000 ''America/New_York'' (- 300)) 12 0 0 0),
               occ_deadlineOffset = 2 \<rparr>]
       else [])"
    by blast
  then have b: "dayContribution exampleEnv (DT 1736262000000 ''America/New_York'' (- 300))
        ''America/New_York'' weekRuns (DT 1736312400000 ''America/New_York'' (- 300)) = []"
    unfolding weekRuns_wednesday(3) weekRuns_wednesday(4) by (simp add: dtGreater_def)
  have ne': "[mondayRun] \<noteq> []" by simp
  from projector_walks_day_by_day[OF ne', of marchEnv]
  have "\<forall>n. 5 \<le> length (scanFromStart marchEnv [mondayRun] n) \<longrightarrow>
      generateNext5FromEvents marchEnv [mondayRun]
        = Some (Inr (take 5 (scanFromStart marchEnv [mondayRun] n)))"
    by (rule conjunct1)
  with marchMonday_scan(1)
  have "generateNext5FromEvents marchEnv [mondayRun]
        = Some (Inr (take 5 (scanFromStart marchEnv [mondayRun] 40)))"
    by blast
  then have c: "map_option (map_sum id hd) (generateNext5FromEvents marchEnv [mondayRun])
        = Some (Inr marchMonday)"
    by (simp add: marchMonday_scan(2))
  from a b c show ?thesis by (intro conjI)
qed

subsection \<open>The timezone of the occurrences\<close>

lemma dayContribution_timezone:
  "d \<in> set (dayContribution env now tz events cur) \<Longrightarrow> timezone d = tz"
  by (auto simp: dayContribution_def Let_def split: option.splits if_splits)

lemma scanDays_timezone:
  "d \<in> set (scanDays env now tz events cur n) \<Longrightarrow> timezone d = tz"
  by (induction n arbitrary: cur) (auto dest: dayContribution_timezone)

lemma mixedZones_eval:
  "generateNext5FromEvents exampleEnv mixedZones = Some (Inr mondayWednesdayNext5)"
  by code_simp

text \<open>
  C3, as the claim states it, fails: the events of \<open>mixedZones\<close> carry two zones, and
  the projector returns five occurrences, all in the zone of the first event, with no
  condition reported.
\<close>

theorem projector_mixed_zones_counterexample:
  "timeZone (ev_start mondayRun) = ''America/New_York''
   \<and> timeZone (ev_start wednesdayRunCentral) = ''America/Chicago''
   \<and> generateNext5FromEvents exampleEnv [mondayRun, wednesdayRunCentral]
       = Some (Inr mondayWednesdayNext5)
   \<and> map timezone mondayWednesdayNext5 = replicate 5 ''America/New_York''"
  using mixedZones_eval
  by (simp add: mixedZones_def mondayRun_def wednesdayRunCentral_def weeklyEvent_def
      mondayWednesdayNext5_def occurrenceAt_def numeral_eq_Suc)

text \<open>
  C3, amended: whatever zones the events carry, a projection that returns is a list
  of occurrences (never an error), each of them in the zone of the first event.
\<close>

theorem projector_uses_first_zone:
  assumes "generateNext5FromEvents env (e0 # es) = Some r"
  shows "\<exists>ds. r = Inr ds \<and> (\<forall>d\<in>set ds. timezone d = timeZone (ev_start e0))"
proof -
  from assms obtain ds where
    w: "walkDays env (setZone env (dtNow env) (timeZone (ev_start e0))) (timeZone (ev_start e0))
          (fst (collectDays (e0 # es))) (snd (collectDays (e0 # es)))
          (dtMax (startOfDay env (setZone env (dtNow env) (timeZone (ev_start e0))))
             (startOfDay env (setZone env (dateTime (ev_start e0)) (timeZone (ev_start e0)))))
          0 []
        = Some ds"
    and r: "r = Inr ds"
    by (auto simp: generateNext5FromEvents_def Let_def)
  from walkDays_scan[OF w] have "\<forall>d\<in>set ds. timezone d = timeZone (ev_start e0)"
    by (auto dest: scanDays_timezone)
  with r show ?thesis by blast
qed

theorem projector_uses_first_zone_witness:
  "generateNext5FromEvents exampleEnv (mondayRun # [wednesdayRunCentral])
     = Some (Inr mondayWednesdayNext5)
   \<and> list_all (\<lambda>d. timezone d = ''America/New_York'') mondayWednesdayNext5"
proof -
  have e: "generateNext5FromEvents exampleEnv (mondayRun # [wednesdayRunCentral])
      = Some (Inr mondayWednesdayNext5)"
    using mixedZones_eval by (simp add: mixedZones_def)
  from projector_uses_first_zone[OF e]
  have "\<forall>d\<in>set mondayWednesdayNext5. timezone d = timeZone (ev_start mondayRun)"
    by simp
  then have "list_all (\<lambda>d. timezone d = ''America/New_York'') mondayWednesdayNext5"
    by (simp add: list_all_iff mondayRun_def weeklyEvent_def)
  with e show ?thesis by simp
qed


section \<open>Properties of the resolver\<close>

subsection \<open>What processEvent stores\<close>

lemma addDayEvent_cases:
  "addDayEvent cur src sid st en m day = m
   \<or> (\<exists>d i. day = Some d \<and> dayIndexOf d = Some i
        \<and> map_of m (dayPatternKey (baseUidOf (uid cur)) i (timeKeyOf st)) = None
        \<and> addDayEvent cur src sid st en m day =
            m @ [(dayPatternKey (baseUidOf (uid cur)) i (timeKeyOf st),
                  makeParsedEvent cur src sid st en (Some [singleDayRrule d]) True)])"
  by (simp add: addDayEvent_def split: option.splits)

text \<open>The loop over the days only appends, and every appended entry is an event of one listed day.\<close>

lemma foldl_addDayEvent_appends:
  "\<exists>new. foldl (addDayEvent cur src sid st en) m days = m @ new
     \<and> set new \<subseteq> (\<lambda>(d, i). (dayPatternKey (baseUidOf (uid cur)) i (timeKeyOf st),
                        makeParsedEvent cur src sid st en (Some [singleDayRrule d]) True))
                    ` {(d, i). Some d \<in> set days \<and> dayIndexOf d = Some i}"
proof (induction days arbitrary: m)
  case Nil
  then show ?case by simp
next
  case (Cons day days)
  let ?f = "\<lambda>(d, i). (dayPatternKey (baseUidOf (uid cur)) i (timeKeyOf st),
                        makeParsedEvent cur src sid st en (Some [singleDayRrule d]) True)"
  let ?m1 = "addDayEvent cur src sid st en m day"
  have mono: "?f ` {(d, i). Some d \<in> set days \<and> dayIndexOf d = Some i}
      \<subseteq> ?f ` {(d, i). Some d \<in> set (day # days) \<and> dayIndexOf d = Some i}"
    by (rule image_mono) auto
  from Cons.IH[of ?m1] obtain new where
    new: "foldl (addDayEvent cur src sid st en) ?m1 days = ?m1 @ new"
    and each: "set new \<subseteq> ?f ` {(d, i). Some d \<in> set days \<and> dayIndexOf d = Some i}"
    by blast
  from addDayEvent_cases[of cur src sid st en m day]
  show ?case
  proof
    assume "?m1 = m"
    with new have "foldl (addDayEvent cur src sid st en) m (day # days) = m @ new" by simp
    with each mono show ?thesis by blast
  next
    assume "\<exists>d i. day = Some d \<and> dayIndexOf d = Some i
        \<and> map_of m (dayPatternKey (baseUidOf (uid cur)) i (timeKeyOf st)) = None
        \<and> ?m1 = m @ [(dayPatternKey (baseUidOf (uid cur)) i (timeKeyOf st),
                  makeParsedEvent cur src sid st en (Some [singleDayRrule d]) True)]"
    then obtain d i where d: "day = Some d" "dayIndexOf d = Some i"
      and m1: "?m1 = m @ [?f (d, i)]"
      by auto
    have "foldl (addDayEvent cur src sid st en) m (day # days) = m @ (?f (d, i) # new)"
      using new m1 by simp
    moreover have "?f (d, i) \<in> ?f ` {(d, i). Some d \<in> set (day # days) \<and> dayIndexOf d = Some i}"
      using d by (intro imageI) simp
    ultimately show ?thesis using each mono by (intro exI[of _ "?f (d, i) # new"]) auto
  qed
qed

text \<open>A successful call had a start, and stores events built from the adjusted times.\<close>

lemma processEvent_Inr:
  assumes "processEvent env cur rr isRec today m src sid = Inr m'"
  shows "\<exists>st en0 new. adjustTimes env cur isRec today = Inr (Some st, en0)
     \<and> m' = m @ new
     \<and> (\<forall>ke\<in>set new. \<exists>rec'. snd ke = makeParsedEvent cur (eventSourceOf cur src) sid st
            (case en0 of Some e \<Rightarrow> e | None \<Rightarrow> st) rec' isRec)"
proof -
  from assms obtain st en0 where adj: "adjustTimes env cur isRec today = Inr (Some st, en0)"
    by (auto simp: processEvent_def split: sum.splits option.splits prod.splits)
  let ?en = "case en0 of Some e \<Rightarrow> e | None \<Rightarrow> st"
  let ?src = "eventSourceOf cur src"
  have "\<exists>new. m' = m @ new
     \<and> (\<forall>ke\<in>set new. \<exists>rec'. snd ke = makeParsedEvent cur ?src sid st ?en rec' isRec)"
  proof (cases isRec)
    case True
    with assms adj have m': "m' = foldl (addDayEvent cur ?src sid st ?en) m (daysInRuleOf rr st)"
      by (simp add: processEvent_def Let_def)
    from foldl_addDayEvent_appends[of cur ?src sid st ?en m "daysInRuleOf rr st"]
    obtain new where new: "m' = m @ new"
      and sub: "set new \<subseteq> (\<lambda>(d, i). (dayPatternKey (baseUidOf (uid cur)) i (timeKeyOf st),
                        makeParsedEvent cur ?src sid st ?en (Some [singleDayRrule d]) True))
                    ` {(d, i). Some d \<in> set (daysInRuleOf rr st) \<and> dayIndexOf d = Some i}"
      unfolding m' by blast
    have "\<forall>ke\<in>set new. \<exists>rec'. snd ke = makeParsedEvent cur ?src sid st ?en rec' isRec"
    proof
      fix ke assume "ke \<in> set new"
      with sub obtain d i where "ke = (dayPatternKey (baseUidOf (uid cur)) i (timeKeyOf st),
                        makeParsedEvent cur ?src sid st ?en (Some [singleDayRrule d]) True)"
        by auto
      then have "snd ke = makeParsedEvent cur ?src sid st ?en (Some [singleDayRrule d]) isRec"
        using True by simp
      then show "\<exists>rec'. snd ke = makeParsedEvent cur ?src sid st ?en rec' isRec" ..
    qed
    with new show ?thesis by (intro exI[of _ new] conjI)
  next
    case False
    let ?x = "(oneTimeKey (uid cur) st, makeParsedEvent cur ?src sid st ?en None False)"
    from False assms adj have "(if map_of m (oneTimeKey (uid cur) st) = None
        then Inr (m @ [?x]) else Inr m) = (Inr m' :: error + (string \<times> parsedEvent) list)"
      by (simp add: processEvent_def Let_def)
    then have "m' = m @ [] \<or> m' = m @ [?x]"
      by (cases "map_of m (oneTimeKey (uid cur) st) = None") simp_all
    then show ?thesis
    proof
      assume "m' = m @ []"
      then show ?thesis by (intro exI[of _ "[]"]) simp
    next
      assume "m' = m @ [?x]"
      moreover have "snd ?x = makeParsedEvent cur ?src sid st ?en None isRec"
        using False by simp
      ultimately show ?thesis by (intro exI[of _ "[?x]"]) auto
    qed
  qed
  with adj show ?thesis by (intro exI[of _ st] exI[of _ en0]) simp
qed

lemma makeParsedEvent_offset:
  "ev_deadlineOffset (makeParsedEvent cur src sid st en rec' isRec)
     = Some (case deadlineOffset cur of Some k \<Rightarrow> k | None \<Rightarrow> 2)"
  by (simp add: makeParsedEvent_def)

lemma processEvent_stored_offset:
  assumes "processEvent env cur rr isRec today m src sid = Inr m'"
    and "ke \<in> set m'" "ke \<notin> set m"
  shows "ev_deadlineOffset (snd ke) = Some (case deadlineOffset cur of Some k \<Rightarrow> k | None \<Rightarrow> 2)"
proof -
  from processEvent_Inr[OF assms(1)] obtain st en0 new where
    m': "m' = m @ new" and
    each: "\<forall>ke\<in>set new. \<exists>rec'. snd ke = makeParsedEvent cur (eventSourceOf cur src) sid st
            (case en0 of Some e \<Rightarrow> e | None \<Rightarrow> st) rec' isRec"
    by blast
  from assms(2,3) m' have "ke \<in> set new" by simp
  with each obtain rec' where "snd ke = makeParsedEvent cur (eventSourceOf cur src) sid st
            (case en0 of Some e \<Rightarrow> e | None \<Rightarrow> st) rec' isRec" by blast
  then show ?thesis by (simp add: makeParsedEvent_offset)
qed


subsection \<open>The deadline offset\<close>

lemma parseProperty_offset:
  "deadlineOffset (parseProperty env cur (''X-PUB-DEADLINE-OFFSET:'' @ value))
     = Some (case parseInt value of None \<Rightarrow> 0 | Some n \<Rightarrow> n)"
  by (simp add: parseProperty_def indexOfChar_def substring_def startsWith_def Let_def)

lemma parseProperty_other:
  "substring line 0 (indexOfChar (CHR '':'') line) \<noteq> ''X-PUB-DEADLINE-OFFSET'' \<Longrightarrow>
     deadlineOffset (parseProperty env cur line) = deadlineOffset cur"
  by (simp add: parseProperty_def Let_def)

lemma parseInt_zero: "parseInt ''0'' = Some 0"
  by code_simp

lemma parseInt_word: "parseInt ''two'' = None"
  by code_simp

lemma weekdayOffset_filter:
  "weekdayOffset events abbr =
     (if filter (\<lambda>e. governedDay e = Some abbr) events = [] then None
      else Some (case ev_deadlineOffset (last (filter (\<lambda>e. governedDay e = Some abbr) events))
                 of None \<Rightarrow> 2 | Some k \<Rightarrow> k))"
  by (simp add: weekdayOffset_def split: list.splits)

lemma weekdayOffset_last:
  "governedDay e = Some abbr \<Longrightarrow>
     weekdayOffset (events @ [e]) abbr
       = Some (case ev_deadlineOffset e of Some k \<Rightarrow> k | None \<Rightarrow> 2)"
  by (simp add: weekdayOffset_filter split: option.splits)

lemma visitDay_governed:
  assumes "dayAbbrOf (weekday day) = Some abbr" "weekdayOffset events abbr = Some k"
  shows "visitDay env now tz (fst (collectDays events)) (snd (collectDays events)) day c ds =
     (if dtGreater (minusDays env (setHMSms env day 12 0 0 0) k) now
      then (c + 1,
            ds @ [\<lparr> runDate = setHMSms env day 12 0 0 0,
                    submissionDate = minusDays env (setHMSms env day 12 0 0 0) k,
                    timezone = tz,
                    timezoneAbbr = getTimezoneAbbreviation env tz (setHMSms env day 12 0 0 0),
                    occ_deadlineOffset = k \<rparr>])
      else (c, ds))"
  using assms by (simp add: visitDay_contribution dayContribution_def Let_def)

lemma offsetZeroIcs_parsed:
  "parseIcsContent exampleEnv ''sid'' offsetZeroIcs exampleUrl
     = Inr [weeklyEvent ''MO'' (DT 1736787600000 ''America/New_York'' (- 300))
              ''America/New_York'' 0]"
  by code_simp

lemma offsetAbsentIcs_parsed:
  "parseIcsContent exampleEnv ''sid'' offsetAbsentIcs exampleUrl
     = Inr [weeklyEvent ''MO'' (DT 1736787600000 ''America/New_York'' (- 300))
              ''America/New_York'' 2]"
  by code_simp

lemma offsetWordIcs_parsed:
  "map_sum id (map ev_deadlineOffset) (parseIcsContent exampleEnv ''sid'' offsetWordIcs exampleUrl)
     = Inr [Some 0]"
  by code_simp

lemma mondays_projected:
  "generateNext5FromEvents exampleEnv
     [weeklyEvent ''MO'' (DT 1736787600000 ''America/New_York'' (- 300)) ''America/New_York'' 0]
     = Some (Inr mondaysSameDay)"
  "generateNext5FromEvents exampleEnv
     [weeklyEvent ''MO'' (DT 1736787600000 ''America/New_York'' (- 300)) ''America/New_York'' 2]
     = Some (Inr mondaysTwoDaysAhead)"
  by code_simp+

text \<open>
  C8. A block starts with no deadline offset and only the offset property sets one; a
  value that reads as 0 is stored as 0. Every event the resolver stores carries the
  record's offset, or 2 when the record has none, so 0 stays 0. The projector does the
  same: the offset of a weekday is the offset of the event that governs it, or 2 when
  that event carries none, and on a day of that weekday the loop body takes the
  deadline that many days before the run and keeps the occurrence, with that offset,
  exactly when the deadline is after now; with offset 0 the deadline is the run
  itself.
\<close>

theorem deadline_offset_default_and_zero:
  "deadlineOffset emptyEvent = None
   \<and> (\<forall>value. parseInt value = Some 0 \<longrightarrow>
         deadlineOffset (parseProperty env cur (''X-PUB-DEADLINE-OFFSET:'' @ value)) = Some 0)
   \<and> (\<forall>line. substring line 0 (indexOfChar (CHR '':'') line) \<noteq> ''X-PUB-DEADLINE-OFFSET'' \<longrightarrow>
         deadlineOffset (parseProperty env cur line) = deadlineOffset cur)
   \<and> (\<forall>rec rr isRec today m src sid m' ke.
         processEvent env rec rr isRec today m src sid = Inr m' \<and> ke \<in> set m' \<and> ke \<notin> set m \<longrightarrow>
         ev_deadlineOffset (snd ke) = Some (case deadlineOffset rec of Some k \<Rightarrow> k | None \<Rightarrow> 2))
   \<and> (\<forall>events e abbr.
         governedDay e = Some abbr \<longrightarrow>
         weekdayOffset (events @ [e]) abbr
           = Some (case ev_deadlineOffset e of Some k \<Rightarrow> k | None \<Rightarrow> 2))
   \<and> (\<forall>events now tz day abbr k c ds.
         dayAbbrOf (weekday day) = Some abbr \<and> weekdayOffset events abbr = Some k \<longrightarrow>
         visitDay env now tz (fst (collectDays events)) (snd (collectDays events)) day c ds =
           (if dtGreater (minusDays env (setHMSms env day 12 0 0 0) k) now
            then (c + 1,
                  ds @ [\<lparr> runDate = setHMSms env day 12 0 0 0,
                          submissionDate = minusDays env (setHMSms env day 12 0 0 0) k,
                          timezone = tz,
                          timezoneAbbr =
                            getTimezoneAbbreviation env tz (setHMSms env day 12 0 0 0),
                          occ_deadlineOffset = k \<rparr>])
            else (c, ds)))
   \<and> (\<forall>day. minusDays env (setHMSms env day 12 0 0 0) 0 = setHMSms env day 12 0 0 0)"
proof (intro conjI allI impI)
  show "deadlineOffset emptyEvent = None" by (simp add: emptyEvent_def)
next
  fix v assume "parseInt v = Some 0"
  then show "deadlineOffset (parseProperty env cur (''X-PUB-DEADLINE-OFFSET:'' @ v)) = Some 0"
    by (simp only: parseProperty_offset option.case)
next
  fix line
  assume "substring line 0 (indexOfChar (CHR '':'') line) \<noteq> ''X-PUB-DEADLINE-OFFSET''"
  then show "deadlineOffset (parseProperty env cur line) = deadlineOffset cur"
    by (rule parseProperty_other)
next
  fix rec :: rawEvent and rr isRec today m src sid m' and ke :: "string \<times> parsedEvent"
  assume "processEvent env rec rr isRec today m src sid = Inr m' \<and> ke \<in> set m' \<and> ke \<notin> set m"
  then show "ev_deadlineOffset (snd ke)
      = Some (case deadlineOffset rec of Some k \<Rightarrow> k | None \<Rightarrow> 2)"
    using processEvent_stored_offset by blast
next
  fix events and e :: parsedEvent and abbr
  assume "governedDay e = Some abbr"
  then show "weekdayOffset (events @ [e]) abbr
      = Some (case ev_deadlineOffset e of Some k \<Rightarrow> k | None \<Rightarrow> 2)"
    by (rule weekdayOffset_last)
next
  fix events :: "parsedEvent list" and now tz day abbr k c and ds :: "occurrence list"
  assume "dayAbbrOf (weekday day) = Some abbr \<and> weekdayOffset events abbr = Some k"
  then show "visitDay env now tz (fst (collectDays events)) (snd (collectDays events)) day c ds =
      (if dtGreater (minusDays env (setHMSms env day 12 0 0 0) k) now
       then (c + 1,
             ds @ [\<lparr> runDate = setHMSms env day 12 0 0 0,
                     submissionDate = minusDays env (setHMSms env day 12 0 0 0) k,
                     timezone = tz,
                     timezoneAbbr = getTimezoneAbbreviation env tz (setHMSms env day 12 0 0 0),
                     occ_deadlineOffset = k \<rparr>])
       else (c, ds))"
    using visitDay_governed by blast
next
  fix day
  show "minusDays env (setHMSms env day 12 0 0 0) 0 = setHMSms env day 12 0 0 0"
    by (rule minusDays_0) (rule setHMSms_wellFormed)
qed


lemma mondayCursor_facts:
  "dayAbbrOf (weekday (DT 1736744400000 ''America/New_York'' (- 300))) = Some ''MO''"
  "governedDay (weeklyEvent ''MO'' (DT 1736787600000 ''America/New_York'' (- 300))
      ''America/New_York'' 0) = Some ''MO''"
  "setHMSms exampleEnv (DT 1736744400000 ''America/New_York'' (- 300)) 12 0 0 0
     = DT 1736787600000 ''America/New_York'' (- 300)"
  "getTimezoneAbbreviation exampleEnv ''America/New_York''
     (DT 1736787600000 ''America/New_York'' (- 300)) = ''EST''"
  by code_simp+

text \<open>
  The calendar with the offset 0 and the calendar without the property, parsed and
  projected at the example clock: the deadlines are the runs themselves in the first
  case and two days before the runs in the second. On Monday 2025-01-13 the loop body
  keeps the run of the first calendar with its deadline at the run.
\<close>

theorem deadline_offset_default_and_zero_witness:
  "deadlineOffset (parseProperty exampleEnv emptyEvent (''X-PUB-DEADLINE-OFFSET:'' @ ''0'')) = Some 0
   \<and> deadlineOffset (parseProperty exampleEnv emptyEvent ''SUMMARY:Run'') = None
   \<and> parseIcsContent exampleEnv ''sid'' offsetZeroIcs exampleUrl
       = Inr [weeklyEvent ''MO'' (DT 1736787600000 ''America/New_York'' (- 300))
                ''America/New_York'' 0]
   \<and> parseIcsContent exampleEnv ''sid'' offsetAbsentIcs exampleUrl
       = Inr [weeklyEvent ''MO'' (DT 1736787600000 ''America/New_York'' (- 300))
                ''America/New_York'' 2]
   \<and> visitDay exampleEnv (DT 1736262000000 ''America/New_York'' (- 300)) ''America/New_York''
        (fst (collectDays [weeklyEvent ''MO'' (DT 1736787600000 ''America/New_York'' (- 300))
                             ''America/New_York'' 0]))
        (snd (collectDays [weeklyEvent ''MO'' (DT 1736787600000 ''America/New_York'' (- 300))
                             ''America/New_York'' 0]))
        (DT 1736744400000 ''America/New_York'' (- 300)) 0 []
       = (1, [occurrenceAt 1736787600000 1736787600000 ''America/New_York'' (- 300) ''EST'' 0])
   \<and> generateNext5FromEvents exampleEnv
        [weeklyEvent ''MO'' (DT 1736787600000 ''America/New_York'' (- 300))
           ''America/New_York'' 0] = Some (Inr mondaysSameDay)
   \<and> generateNext5FromEvents exampleEnv
        [weeklyEvent ''MO'' (DT 1736787600000 ''America/New_York'' (- 300))
           ''America/New_York'' 2] = Some (Inr mondaysTwoDaysAhead)"
proof -
  let ?e = "weeklyEvent ''MO'' (DT 1736787600000 ''America/New_York'' (- 300))
      ''America/New_York'' 0"
  let ?day = "DT 1736744400000 ''America/New_York'' (- 300)"
  let ?now = "DT 1736262000000 ''America/New_York'' (- 300)"
  note inst = deadline_offset_default_and_zero[of exampleEnv emptyEvent]
  have name: "substring ''SUMMARY:Run'' 0 (indexOfChar (CHR '':'') ''SUMMARY:Run'')
      \<noteq> ''X-PUB-DEADLINE-OFFSET''"
    by (simp add: substring_def indexOfChar_def)
  from inst have "\<forall>v. parseInt v = Some 0 \<longrightarrow>
      deadlineOffset (parseProperty exampleEnv emptyEvent (''X-PUB-DEADLINE-OFFSET:'' @ v)) = Some 0"
    by (rule conjunct2[THEN conjunct1])
  with parseInt_zero
  have a: "deadlineOffset (parseProperty exampleEnv emptyEvent
      (''X-PUB-DEADLINE-OFFSET:'' @ ''0'')) = Some 0"
    by blast
  from inst have "\<forall>line. substring line 0 (indexOfChar (CHR '':'') line)
        \<noteq> ''X-PUB-DEADLINE-OFFSET'' \<longrightarrow>
      deadlineOffset (parseProperty exampleEnv emptyEvent line) = deadlineOffset emptyEvent"
    by (rule conjunct2[THEN conjunct2, THEN conjunct1])
  with name have "deadlineOffset (parseProperty exampleEnv emptyEvent ''SUMMARY:Run'')
      = deadlineOffset emptyEvent" by (elim allE impE)
  moreover from inst have "deadlineOffset emptyEvent = None" by (rule conjunct1)
  ultimately have b: "deadlineOffset (parseProperty exampleEnv emptyEvent ''SUMMARY:Run'') = None"
    by simp
  from inst have "\<forall>events e abbr. governedDay e = Some abbr \<longrightarrow>
      weekdayOffset (events @ [e]) abbr
        = Some (case ev_deadlineOffset e of Some k \<Rightarrow> k | None \<Rightarrow> 2)"
    by (rule conjunct2[THEN conjunct2, THEN conjunct2, THEN conjunct2, THEN conjunct1])
  with mondayCursor_facts(2)
  have "weekdayOffset ([] @ [?e]) ''MO''
      = Some (case ev_deadlineOffset ?e of Some k \<Rightarrow> k | None \<Rightarrow> 2)"
    by blast
  then have off: "weekdayOffset [?e] ''MO'' = Some 0"
    by (simp add: weeklyEvent_def)
  from inst have "\<forall>events now tz day abbr k c ds.
      dayAbbrOf (weekday day) = Some abbr \<and> weekdayOffset events abbr = Some k \<longrightarrow>
      visitDay exampleEnv now tz (fst (collectDays events)) (snd (collectDays events)) day c ds =
        (if dtGreater (minusDays exampleEnv (setHMSms exampleEnv day 12 0 0 0) k) now
         then (c + 1,
               ds @ [\<lparr> runDate = setHMSms exampleEnv day 12 0 0 0,
                       submissionDate = minusDays exampleEnv (setHMSms exampleEnv day 12 0 0 0) k,
                       timezone = tz,
                       timezoneAbbr =
                         getTimezoneAbbreviation exampleEnv tz (setHMSms exampleEnv day 12 0 0 0),
                       occ_deadlineOffset = k \<rparr>])
         else (c, ds))"
    by (rule conjunct2[THEN conjunct2, THEN conjunct2, THEN conjunct2, THEN conjunct2,
          THEN conjunct1])
  with mondayCursor_facts(1) off
  have v: "visitDay exampleEnv ?now ''America/New_York'' (fst (collectDays [?e]))
        (snd (collectDays [?e])) ?day 0 [] =
      (if dtGreater (minusDays exampleEnv (setHMSms exampleEnv ?day 12 0 0 0) 0) ?now
       then (0 + 1,
             [] @ [\<lparr> runDate = setHMSms exampleEnv ?day 12 0 0 0,
                     submissionDate = minusDays exampleEnv (setHMSms exampleEnv ?day 12 0 0 0) 0,
                     timezone = ''America/New_York'',
                     timezoneAbbr = getTimezoneAbbreviation exampleEnv ''America/New_York''
                       (setHMSms exampleEnv ?day 12 0 0 0),
                     occ_deadlineOffset = 0 \<rparr>])
       else (0, []))"
    by blast
  from inst have same: "\<forall>day. minusDays exampleEnv (setHMSms exampleEnv day 12 0 0 0) 0
      = setHMSms exampleEnv day 12 0 0 0"
    by (rule conjunct2[THEN conjunct2, THEN conjunct2, THEN conjunct2, THEN conjunct2,
          THEN conjunct2])
  from same have "minusDays exampleEnv (setHMSms exampleEnv ?day 12 0 0 0) 0
      = setHMSms exampleEnv ?day 12 0 0 0" ..
  then have same0: "minusDays exampleEnv (DT 1736787600000 ''America/New_York'' (- 300)) 0
      = DT 1736787600000 ''America/New_York'' (- 300)"
    unfolding mondayCursor_facts(3) .
  have c: "visitDay exampleEnv ?now ''America/New_York'' (fst (collectDays [?e]))
        (snd (collectDays [?e])) ?day 0 []
      = (1, [occurrenceAt 1736787600000 1736787600000 ''America/New_York'' (- 300) ''EST'' 0])"
    unfolding v mondayCursor_facts(3) same0 mondayCursor_facts(4)
    by (simp add: dtGreater_def occurrenceAt_def)
  from a b c offsetZeroIcs_parsed offsetAbsentIcs_parsed mondays_projected
  show ?thesis by (intro conjI)
qed

text \<open>
  C10. An offset value that \<open>parseInt\<close> cannot read gives the record the offset 0,
  and the events stored for the record carry 0, not the default 2.
\<close>

theorem unreadable_offset_is_zero:
  assumes "parseInt value = None"
  shows "deadlineOffset (parseProperty env cur (''X-PUB-DEADLINE-OFFSET:'' @ value)) = Some 0
   \<and> (\<forall>rr isRec today m src sid m' ke.
         processEvent env (parseProperty env cur (''X-PUB-DEADLINE-OFFSET:'' @ value))
           rr isRec today m src sid = Inr m' \<and> ke \<in> set m' \<and> ke \<notin> set m \<longrightarrow>
         ev_deadlineOffset (snd ke) = Some 0)"
proof (intro conjI allI impI)
  show p: "deadlineOffset (parseProperty env cur (''X-PUB-DEADLINE-OFFSET:'' @ value)) = Some 0"
    using assms by (simp only: parseProperty_offset option.case)
  fix rr isRec today m src sid m' and ke :: "string \<times> parsedEvent"
  assume "processEvent env (parseProperty env cur (''X-PUB-DEADLINE-OFFSET:'' @ value))
           rr isRec today m src sid = Inr m' \<and> ke \<in> set m' \<and> ke \<notin> set m"
  then have "ev_deadlineOffset (snd ke) = Some (case deadlineOffset
      (parseProperty env cur (''X-PUB-DEADLINE-OFFSET:'' @ value)) of Some k \<Rightarrow> k | None \<Rightarrow> 2)"
    using processEvent_stored_offset by blast
  with p show "ev_deadlineOffset (snd ke) = Some 0" by simp
qed

theorem unreadable_offset_is_zero_witness:
  "parseInt ''two'' = None
   \<and> deadlineOffset (parseProperty exampleEnv emptyEvent (''X-PUB-DEADLINE-OFFSET:'' @ ''two''))
       = Some 0
   \<and> map_sum id (map ev_deadlineOffset)
        (parseIcsContent exampleEnv ''sid'' offsetWordIcs exampleUrl) = Inr [Some 0]"
  using unreadable_offset_is_zero[OF parseInt_word, of exampleEnv emptyEvent, THEN conjunct1]
    parseInt_word offsetWordIcs_parsed
  by (intro conjI)


subsection \<open>First write wins\<close>

lemma addDayEvent_noop:
  "(\<forall>d i. day = Some d \<and> dayIndexOf d = Some i \<longrightarrow>
       map_of m (dayPatternKey (baseUidOf (uid cur)) i (timeKeyOf st)) \<noteq> None) \<Longrightarrow>
   addDayEvent cur src sid st en m day = m"
  by (auto simp: addDayEvent_def split: option.splits)

lemma foldl_addDayEvent_noop:
  "(\<forall>d i. Some d \<in> set days \<and> dayIndexOf d = Some i \<longrightarrow>
       map_of m (dayPatternKey (baseUidOf (uid cur)) i (timeKeyOf st)) \<noteq> None) \<Longrightarrow>
   foldl (addDayEvent cur src sid st en) m days = m"
proof (induction days)
  case Nil
  then show ?case by simp
next
  case (Cons day days)
  have "addDayEvent cur src sid st en m day = m"
    by (rule addDayEvent_noop) (use Cons.prems in auto)
  moreover have "foldl (addDayEvent cur src sid st en) m days = m"
    by (rule Cons.IH) (use Cons.prems in auto)
  ultimately show ?case by simp
qed

lemma map_of_append_kept:
  "map_of m k \<noteq> None \<Longrightarrow> map_of (m @ new) k = map_of m k"
  by (auto simp: map_add_def split: option.splits)

lemma addDayEvent_holds_key:
  "dayIndexOf d = Some i \<Longrightarrow>
   map_of (addDayEvent cur src sid st en m (Some d))
     (dayPatternKey (baseUidOf (uid cur)) i (timeKeyOf st)) \<noteq> None"
  by (auto simp: addDayEvent_def map_add_def)

lemma foldl_addDayEvent_keeps:
  assumes "map_of m k \<noteq> None"
  shows "map_of (foldl (addDayEvent cur src sid st en) m days) k \<noteq> None"
proof -
  from foldl_addDayEvent_appends[of cur src sid st en m days]
  obtain new where "foldl (addDayEvent cur src sid st en) m days = m @ new" by blast
  with assms show ?thesis by (simp add: map_of_append_kept)
qed

lemma foldl_addDayEvent_holds_keys:
  "Some d \<in> set days \<Longrightarrow> dayIndexOf d = Some i \<Longrightarrow>
   map_of (foldl (addDayEvent cur src sid st en) m days)
     (dayPatternKey (baseUidOf (uid cur)) i (timeKeyOf st)) \<noteq> None"
proof (induction days arbitrary: m)
  case Nil
  then show ?case by simp
next
  case (Cons day days)
  show ?case
  proof (cases "day = Some d")
    case True
    have "map_of (addDayEvent cur src sid st en m (Some d))
        (dayPatternKey (baseUidOf (uid cur)) i (timeKeyOf st)) \<noteq> None"
      by (rule addDayEvent_holds_key[OF Cons.prems(2)])
    then show ?thesis using True by (simp add: foldl_addDayEvent_keeps)
  next
    case False
    with Cons.prems have "Some d \<in> set days" by auto
    from Cons.IH[OF this Cons.prems(2)] show ?thesis by simp
  qed
qed

lemma set_map_filter_eq:
  "set (List.map_filter g xs) = {y. \<exists>x\<in>set xs. g x = Some y}"
  by (induction xs) (auto split: option.splits)

lemma dedupKeys_recurring:
  assumes "adjustTimes env cur True today = Inr (Some st, en0)"
  shows "set (dedupKeys env cur rr True today) =
     {dayPatternKey (baseUidOf (uid cur)) i (timeKeyOf st) | d i.
        Some d \<in> set (daysInRuleOf rr st) \<and> dayIndexOf d = Some i}"
  using assms
  by (auto simp: dedupKeys_def set_map_filter_eq split: option.splits) blast

lemma dedupKeys_one_time:
  assumes "adjustTimes env cur False today = Inr (Some st, en0)"
  shows "dedupKeys env cur rr False today = [oneTimeKey (uid cur) st]"
  using assms by (simp add: dedupKeys_def)

lemma dedupKeys_nonempty:
  "dedupKeys env cur rr isRec today \<noteq> [] \<Longrightarrow>
     \<exists>st en0. adjustTimes env cur isRec today = Inr (Some st, en0)"
  by (auto simp: dedupKeys_def split: sum.splits option.splits prod.splits)

lemma key_held_iff: "(map_of m k \<noteq> None) = (k \<in> fst ` set m)"
  by (simp add: map_of_eq_None_iff)

text \<open>A record all of whose keys are held changes nothing and raises nothing.\<close>

lemma processEvent_dropped:
  assumes adj: "adjustTimes env cur isRec today = Inr (Some st, en0)"
    and held: "set (dedupKeys env cur rr isRec today) \<subseteq> fst ` set m"
  shows "processEvent env cur rr isRec today m src sid = Inr m"
proof (cases isRec)
  case True
  have "\<forall>d i. Some d \<in> set (daysInRuleOf rr st) \<and> dayIndexOf d = Some i \<longrightarrow>
       map_of m (dayPatternKey (baseUidOf (uid cur)) i (timeKeyOf st)) \<noteq> None"
    using held adj True unfolding key_held_iff
    by (auto simp: dedupKeys_recurring)
  then have "foldl (addDayEvent cur (eventSourceOf cur src) sid st
      (case en0 of Some e \<Rightarrow> e | None \<Rightarrow> st)) m (daysInRuleOf rr st) = m"
    by (rule foldl_addDayEvent_noop)
  with adj True show ?thesis by (simp add: processEvent_def Let_def)
next
  case False
  with held adj have "map_of m (oneTimeKey (uid cur) st) \<noteq> None"
    unfolding key_held_iff by (simp add: dedupKeys_one_time)
  with adj False show ?thesis by (simp add: processEvent_def Let_def)
qed

text \<open>After a successful call the record's keys are all held.\<close>

lemma processEvent_holds_keys:
  assumes p: "processEvent env cur rr isRec today m src sid = Inr m'"
  shows "set (dedupKeys env cur rr isRec today) \<subseteq> fst ` set m'"
proof -
  from p obtain st en0 where adj: "adjustTimes env cur isRec today = Inr (Some st, en0)"
    by (auto simp: processEvent_def split: sum.splits option.splits prod.splits)
  show ?thesis
  proof (cases isRec)
    case True
    with p adj have m': "m' = foldl (addDayEvent cur (eventSourceOf cur src) sid st
        (case en0 of Some e \<Rightarrow> e | None \<Rightarrow> st)) m (daysInRuleOf rr st)"
      by (simp add: processEvent_def Let_def)
    show ?thesis
    proof
      fix k assume "k \<in> set (dedupKeys env cur rr isRec today)"
      with adj True obtain d i where k: "k = dayPatternKey (baseUidOf (uid cur)) i (timeKeyOf st)"
        and d: "Some d \<in> set (daysInRuleOf rr st)" "dayIndexOf d = Some i"
        by (auto simp: dedupKeys_recurring)
      from foldl_addDayEvent_holds_keys[OF d] have "map_of m' k \<noteq> None"
        unfolding m' k .
      then show "k \<in> fst ` set m'" by (simp only: key_held_iff)
    qed
  next
    case False
    let ?x = "(oneTimeKey (uid cur) st, makeParsedEvent cur (eventSourceOf cur src) sid st
        (case en0 of Some e \<Rightarrow> e | None \<Rightarrow> st) None False)"
    from False p adj have "(if map_of m (oneTimeKey (uid cur) st) = None
        then Inr (m @ [?x]) else Inr m) = (Inr m' :: error + (string \<times> parsedEvent) list)"
      by (simp add: processEvent_def Let_def)
    then have "oneTimeKey (uid cur) st \<in> fst ` set m'"
      by (cases "map_of m (oneTimeKey (uid cur) st) = None")
        (auto simp: map_of_eq_None_iff)
    with adj False show ?thesis by (simp add: dedupKeys_one_time)
  qed
qed

text \<open>
  C7. A successful call of processEvent only appends to the map, so every key held
  before keeps its event (first write wins); afterwards the record's own dedup keys
  are held; a later record whose dedup keys are all held is dropped, leaving the map
  as it is and raising nothing; in particular processing the same record again, under
  any session id, changes nothing.
\<close>

theorem first_write_wins:
  assumes p: "processEvent env c1 r1 i1 today m s1 q1 = Inr m1"
  shows "(\<exists>new. m1 = m @ new)
   \<and> (\<forall>k\<in>fst ` set m. map_of m1 k = map_of m k)
   \<and> set (dedupKeys env c1 r1 i1 today) \<subseteq> fst ` set m1
   \<and> (\<forall>c2 r2 i2 s2 q2.
         dedupKeys env c2 r2 i2 today \<noteq> []
         \<and> set (dedupKeys env c2 r2 i2 today) \<subseteq> fst ` set m1 \<longrightarrow>
         processEvent env c2 r2 i2 today m1 s2 q2 = Inr m1)
   \<and> (\<forall>s2 q2. processEvent env c1 r1 i1 today m1 s2 q2 = Inr m1)"
proof (intro conjI)
  from processEvent_Inr[OF p] obtain st en0 new where
    adj: "adjustTimes env c1 i1 today = Inr (Some st, en0)" and m1: "m1 = m @ new"
    by blast
  from m1 show "\<exists>new. m1 = m @ new" ..
  show "\<forall>k\<in>fst ` set m. map_of m1 k = map_of m k"
  proof
    fix k assume "k \<in> fst ` set m"
    then have "map_of m k \<noteq> None" by (simp only: key_held_iff)
    then show "map_of m1 k = map_of m k" unfolding m1 by (rule map_of_append_kept)
  qed
  show held: "set (dedupKeys env c1 r1 i1 today) \<subseteq> fst ` set m1"
    by (rule processEvent_holds_keys[OF p])
  show "\<forall>c2 r2 i2 s2 q2.
         dedupKeys env c2 r2 i2 today \<noteq> []
         \<and> set (dedupKeys env c2 r2 i2 today) \<subseteq> fst ` set m1 \<longrightarrow>
         processEvent env c2 r2 i2 today m1 s2 q2 = Inr m1"
  proof (intro allI impI, elim conjE)
    fix c2 r2 i2 s2 q2
    assume ne: "dedupKeys env c2 r2 i2 today \<noteq> []"
      and sub: "set (dedupKeys env c2 r2 i2 today) \<subseteq> fst ` set m1"
    from dedupKeys_nonempty[OF ne] obtain st2 en2 where
      "adjustTimes env c2 i2 today = Inr (Some st2, en2)" by blast
    from processEvent_dropped[OF this sub]
    show "processEvent env c2 r2 i2 today m1 s2 q2 = Inr m1" .
  qed
  show "\<forall>s2 q2. processEvent env c1 r1 i1 today m1 s2 q2 = Inr m1"
    using processEvent_dropped[OF adj held] by blast
qed

lemma firstRecord_stored:
  "processEvent exampleEnv firstRecord mondayRule True exampleToday [] ''Paper'' ''sid''
     = Inr [firstStored]"
  by code_simp

lemma secondRecord_keys:
  "dedupKeys exampleEnv secondRecord mondayRule True exampleToday = [''5409_Adpay_1_12:00'']"
  by code_simp

theorem first_write_wins_witness:
  "processEvent exampleEnv firstRecord mondayRule True exampleToday [] ''Paper'' ''sid''
     = Inr [firstStored]
   \<and> processEvent exampleEnv secondRecord mondayRule True exampleToday [firstStored]
       ''Paper'' ''sid2'' = Inr [firstStored]
   \<and> ev_summary (snd firstStored) = ''First''"
proof -
  have ne: "dedupKeys exampleEnv secondRecord mondayRule True exampleToday \<noteq> []"
    by (simp add: secondRecord_keys)
  have sub: "set (dedupKeys exampleEnv secondRecord mondayRule True exampleToday)
      \<subseteq> fst ` set [firstStored]"
    by (simp add: secondRecord_keys firstStored_def)
  from first_write_wins[OF firstRecord_stored]
  have "\<forall>c2 r2 i2 s2 q2.
         dedupKeys exampleEnv c2 r2 i2 exampleToday \<noteq> []
         \<and> set (dedupKeys exampleEnv c2 r2 i2 exampleToday) \<subseteq> fst ` set [firstStored] \<longrightarrow>
         processEvent exampleEnv c2 r2 i2 exampleToday [firstStored] s2 q2 = Inr [firstStored]"
    by (rule conjunct2[THEN conjunct2, THEN conjunct2, THEN conjunct1])
  with ne sub have "processEvent exampleEnv secondRecord mondayRule True exampleToday
      [firstStored] ''Paper'' ''sid2'' = Inr [firstStored]"
    by blast
  with firstRecord_stored show ?thesis by (simp add: firstStored_def)
qed


subsection \<open>One stored event per listed weekday\<close>



lemma dayIndexOf_None: "d \<notin> set dayNames \<Longrightarrow> dayIndexOf d = None"
  by (simp add: dayIndexOf_def)



















section \<open>Properties of the parser\<close>

subsection \<open>When the parse returns\<close>

lemma processEvent_ok:
  assumes "processable cur"
  shows "\<exists>m'. processEvent env cur rr isRec today m src sid = Inr m'"
proof -
  from assms obtain s where s: "startDate cur = Some s" and e: "endDate cur \<noteq> Some Invalid"
    by (auto simp: processable_def split: option.splits DateTime.splits)
  let ?en = "case endDate cur of Some x \<Rightarrow> x | None \<Rightarrow> s"
  let ?today = "setZone env today (eventTimezoneOf cur)"
  have "\<exists>st en0. adjustTimes env cur isRec today = Inr (Some st, en0)"
  proof (cases "isRec \<and> dtLess s ?today")
    case False
    then have "adjustTimes env cur isRec today
        = Inr (Some s, case endDate cur of Some x \<Rightarrow> Some x | None \<Rightarrow> Some s)"
      using s by (auto simp: adjustTimes_def Let_def split: option.splits)
    then show ?thesis by blast
  next
    case True
    then obtain a za oa where sa: "s = DT a za oa" by (cases s) auto
    from e obtain b zb ob where en: "?en = DT b zb ob"
      using sa by (cases "endDate cur"; cases "the (endDate cur)") auto
    then have "adjustTimes env cur isRec today
        = Inr (Some (nextOccurrence env s ?today),
            Some (plusMillis env (nextOccurrence env s ?today) (b - a)))"
      using True s sa by (auto simp: adjustTimes_def Let_def split: option.splits)
    then show ?thesis by blast
  qed
  then obtain st en0 where adj: "adjustTimes env cur isRec today = Inr (Some st, en0)" by blast
  show ?thesis
  proof (cases isRec)
    case True
    with adj show ?thesis by (simp add: processEvent_def Let_def)
  next
    case False
    with adj show ?thesis by (simp add: processEvent_def Let_def)
  qed
qed

lemma endEvent_ok:
  assumes "\<And>e. st_currentEvent st = Some e \<Longrightarrow> hasKeys e \<Longrightarrow> processable e"
  shows "\<exists>st'. endEvent env rruleMap today src sid st = Inr st'
     \<and> st_currentEvent st' = None \<and> st_inEvent st' = False"
proof (cases "st_currentEvent st")
  case None
  then show ?thesis by (simp add: endEvent_def)
next
  case (Some e)
  show ?thesis
  proof (cases "hasKeys e")
    case False
    with Some show ?thesis by (simp add: endEvent_def)
  next
    case True
    let ?rr = "rawRruleOf rruleMap e"
    let ?rec = "truthy ?rr \<or> truthy (rrule e)"
    from assms[OF Some True] processEvent_ok
    obtain m' where m': "processEvent env e ?rr ?rec today (st_eventsByDayPattern st) src sid
        = Inr m'" by blast
    show ?thesis
    proof (cases "\<not> ?rec \<and> startDate e \<noteq> None
        \<and> dtLess (the (startDate e)) (setZone env today (eventTimezoneOf e))")
      case past: True
      then have "endEvent env rruleMap today src sid st =
          Inr (st\<lparr> st_totalProcessed := st_totalProcessed st + 1,
                  st_pastEvents := st_pastEvents st + 1,
                  st_currentEvent := None, st_inEvent := False \<rparr>)"
        using Some True by (simp add: endEvent_def Let_def)
      then show ?thesis by simp
    next
      case False
      then have "endEvent env rruleMap today src sid st =
          Inr (st\<lparr> st_totalProcessed := st_totalProcessed st + 1,
                  st_futureEvents := st_futureEvents st + 1,
                  st_eventsByDayPattern := m',
                  st_currentEvent := None, st_inEvent := False \<rparr>)"
        using Some True m' by (auto simp: endEvent_def Let_def)
      then show ?thesis by simp
    qed
  qed
qed

text \<open>While a block is open there is a record under construction.\<close>

lemma parseLines_ok:
  assumes "st_inEvent st \<longrightarrow> st_currentEvent st \<noteq> None"
    and "list_all processable (blockRecords env (st_currentEvent st) (st_inEvent st) lines)"
  shows "\<exists>st'. parseLines env rruleMap today src sid st lines = Inr st'"
  using assms
proof (induction lines arbitrary: st)
  case Nil
  then show ?case by simp
next
  case (Cons line rest)
  show ?case
  proof (cases "line = ''BEGIN:VEVENT''")
    case True
    let ?st1 = "st\<lparr> st_inEvent := True, st_currentEvent := Some emptyEvent \<rparr>"
    have 1: "parseLine env rruleMap today src sid st line = Inr ?st1"
      using True by (simp add: parseLine_def)
    have "list_all processable (blockRecords env (st_currentEvent ?st1) (st_inEvent ?st1) rest)"
      using Cons.prems(2) True by simp
    from Cons.IH[OF _ this] 1 show ?thesis by simp
  next
    case nb: False
    show ?thesis
    proof (cases "line = ''END:VEVENT'' \<and> st_inEvent st")
      case True
      have ok: "\<And>e. st_currentEvent st = Some e \<Longrightarrow> hasKeys e \<Longrightarrow> processable e"
        using Cons.prems(2) nb True by simp
      from endEvent_ok[OF ok] obtain st1 where
        e: "endEvent env rruleMap today src sid st = Inr st1"
        and c: "st_currentEvent st1 = None" "st_inEvent st1 = False"
        by blast
      have 1: "parseLine env rruleMap today src sid st line = Inr st1"
        using nb True e by (auto simp: parseLine_def)
      have "list_all processable (blockRecords env (st_currentEvent st1) (st_inEvent st1) rest)"
        using Cons.prems(2) nb True c by simp
      from Cons.IH[OF _ this] c 1 show ?thesis by simp
    next
      case ne: False
      show ?thesis
      proof (cases "st_inEvent st \<and> strIncludes line '':''")
        case True
        with Cons.prems(1) obtain e where e: "st_currentEvent st = Some e" by auto
        let ?st1 = "st\<lparr> st_currentEvent := Some (parseProperty env e line) \<rparr>"
        have 1: "parseLine env rruleMap today src sid st line = Inr ?st1"
          using nb ne True e by (auto simp: parseLine_def)
        have "list_all processable
            (blockRecords env (st_currentEvent ?st1) (st_inEvent ?st1) rest)"
          using Cons.prems(2) nb ne True e by simp
        from Cons.IH[OF _ this] 1 show ?thesis by simp
      next
        case False
        have 1: "parseLine env rruleMap today src sid st line = Inr st"
          using nb ne False by (auto simp: parseLine_def)
        have "list_all processable (blockRecords env (st_currentEvent st) (st_inEvent st) rest)"
          using Cons.prems(2) nb ne False by simp
        from Cons.IH[OF Cons.prems(1) this] 1 show ?thesis by simp
      qed
    qed
  qed
qed

text \<open>
  Whatever the lines of the text are, the parse returns a list of stored events as
  soon as every record that a block yields has a start and no invalid end: stray
  lines, lines without a colon, unknown properties and date values that cannot be read
  do not abort it.
\<close>

lemma parse_returns_for_processable_records:
  assumes "list_all processable (recordsOf env icsContent)"
  shows "\<exists>events. parseIcsContent env sessionId icsContent sourceUrl = Inr events"
proof -
  have "st_inEvent initialState \<longrightarrow> st_currentEvent initialState \<noteq> None"
    by (simp add: initialState_def)
  moreover have "list_all processable
      (blockRecords env (st_currentEvent initialState) (st_inEvent initialState)
         (map trim (splitChar (CHR 0x0A) icsContent)))"
    using assms by (simp add: recordsOf_def initialState_def)
  ultimately obtain st' where
    "parseLines env (rruleMapOf icsContent) (startOfDay env (dtNow env)) (sourceNameOf sourceUrl)
       sessionId initialState (map trim (splitChar (CHR 0x0A) icsContent)) = Inr st'"
    using parseLines_ok by blast
  then show ?thesis by (simp add: parseIcsContent_def)
qed

lemma messyIcs_parsed:
  "list_all processable (recordsOf exampleEnv messyIcs)"
  "map_sum id (map ev_recurrence) (parseIcsContent exampleEnv ''sid'' messyIcs exampleUrl)
     = Inr [Some [''RRULE:FREQ=WEEKLY;BYDAY=MO'']]"
  by code_simp+

text \<open>
  C9. The claim: a malformed block is skipped and never aborts the parse, which
  always returns a list of records. The code at the failing input: the second block of
  \<open>goodThenUntimedIcs\<close> has a summary and no start; the resolver reads the hour of
  the start it does not have, the TypeError leaves the parser, and the event of the
  first block, which parses on its own, is lost with it.
\<close>

theorem parse_aborts_on_block_without_start:
  "map startDate (recordsOf exampleEnv goodThenUntimedIcs)
     = [Some (DT 1736787600000 ''America/New_York'' (- 300)), None]
   \<and> parseIcsContent exampleEnv ''sid'' goodThenUntimedIcs exampleUrl = Inl TypeError
   \<and> parseIcsContent exampleEnv ''sid'' noStartIcs exampleUrl = Inl TypeError
   \<and> parseIcsContent exampleEnv ''sid'' offsetAbsentIcs exampleUrl
       = Inr [weeklyEvent ''MO'' (DT 1736787600000 ''America/New_York'' (- 300))
                ''America/New_York'' 2]"
  by code_simp


end
